theory Spec2Isabelle
  imports Complex_Main
begin

section \<open>The document and the browser, as the component sees them\<close>

text \<open>
  The program is the class \<open>MotionEffects\<close> of \<open>assets/js/motion-effects.js\<close>. It owns no
  data beyond its instance fields; everything else it does is a read or a write of the
  document (nodes, their class lists, their inline styles) or a request to the browser
  (timers, animation frames, observers). The model is a state record holding both: the
  part of the browser the component talks to, and its instance fields.

  Conventions of the model:
  \<^item> A node is its index in the store \<open>nodes\<close>; \<open>createElement\<close> appends to the store, so a
    node never changes its index and a new node never aliases an old one. Only element
    nodes are stored (\<open>nodeType = 1\<close>).
  \<^item> The tree is kept through \<open>parent\<close> pointers. \<open>querySelectorAll\<close> lists the connected
    matches by increasing index. The host document is taken to be listed in document
    order; nodes the builders append to the body come last in both orders.
  \<^item> JavaScript numbers are idealised as real numbers: the arithmetic of the source is
    kept, its rounding is not.
  \<^item> Of the inline style, the model tracks the properties that some method reads or
    writes individually: \<open>position\<close>, \<open>left\<close>, \<open>top\<close>, \<open>width\<close>, \<open>height\<close>, \<open>transform\<close>
    and the custom properties \<open>--x\<close>, \<open>--y\<close>. The colours, gradients, blur filters,
    keyframe animations and random sizes that the background builder writes through
    \<open>cssText\<close> are never read back by the component and are not tracked.
  \<^item> \<open>bbox\<close> is what \<open>getBoundingClientRect\<close> answers for the node; the layout engine
    owns it.
\<close>

type_synonym node = nat

datatype tfn = Translate real real | TranslatePct real real | Rotate real | Scale real

record rect =
  r_left :: real
  r_top :: real
  r_width :: real
  r_height :: real

definition r_bottom :: "rect \<Rightarrow> real" where
  "r_bottom r = r_top r + r_height r"

record element =
  tag :: string
  classes :: "string list"
  parent :: "node option"
  bbox :: rect
  st_position :: "string option"
  st_left :: "real option"
  st_top :: "real option"
  st_width :: "real option"
  st_height :: "real option"
  st_transform :: "tfn list"
  st_x :: "real option"
  st_y :: "real option"
  wired :: nat

text \<open>
  \<open>wired\<close> counts how many times the component has attached its five listeners
  (mouseenter, mouseleave, mousedown, mouseup, click) to the element: \<open>addEventListener\<close>
  with a fresh closure never deduplicates, so each attachment is one more listener of
  each kind.
\<close>

datatype timer_action = RemoveNode node | AddClass node string | RemoveClass node string

datatype js_error = TypeError

record state =
  \<comment> \<open>browser and document\<close>
  nodes :: "element list"
  body :: node
  innerWidth :: real
  innerHeight :: real
  clientHeight :: real
  clock :: nat
  timers :: "(nat \<times> timer_action) list"
  raf_counter :: nat
  raf_pending :: "nat list"
  listening :: bool
  mo_observing :: bool
  \<comment> \<open>instance fields, in the order of the constructor\<close>
  motionBackground :: "node option"
  gridElement :: "node option"
  layers :: "node list"
  particles :: "node list"
  floatingShapes :: "node list option"
  mouseX :: real
  mouseY :: real
  centerX :: real
  centerY :: real
  mouseVelocityX :: real
  mouseVelocityY :: real
  lastMouseX :: real
  lastMouseY :: real
  cursor :: "node option"
  cursorDot :: "node option"
  cursorVisible :: bool
  cursorHover :: bool
  cursorActive :: bool
  cursorTrail :: "node list"
  maxTrailLength :: nat
  animatedElements :: "node list"
  staggerGroups :: "node list"
  intersectionObserver :: "node list option"
  animationFrameId :: "nat option"
  lastScrollTime :: int
  lastMouseMoveTime :: int
  scrollThrottle :: int
  mouseMoveThrottle :: int
  prefersReducedMotion :: bool

text \<open>
  \<open>listening\<close>: the document and window listeners of \<open>setupEventListeners\<close> are installed.
  \<open>mo_observing\<close>: the MutationObserver of \<open>observeNewElements\<close> is observing the body.
  \<open>intersectionObserver\<close>: \<open>None\<close> is \<open>null\<close>, \<open>Some ts\<close> is the observer with its observed
  targets. \<open>floatingShapes\<close>: \<open>None\<close> is \<open>undefined\<close> (the field is first assigned in the
  shape loop). \<open>raf_counter\<close> is the document's animation frame callback identifier,
  \<open>raf_pending\<close> the handles whose callback (always \<open>animate\<close>) is still to run.
\<close>

subsection \<open>DOM primitives\<close>

definition blank :: "string \<Rightarrow> element" where
  "blank t = \<lparr>tag = t, classes = [], parent = None,
     bbox = \<lparr>r_left = 0, r_top = 0, r_width = 0, r_height = 0\<rparr>,
     st_position = None, st_left = None, st_top = None, st_width = None, st_height = None,
     st_transform = [], st_x = None, st_y = None, wired = 0\<rparr>"

definition upd :: "node \<Rightarrow> (element \<Rightarrow> element) \<Rightarrow> state \<Rightarrow> state" where
  "upd n f s = (if n < length (nodes s) then s\<lparr>nodes := (nodes s)[n := f (nodes s ! n)]\<rparr> else s)"

definition createElement :: "string \<Rightarrow> state \<Rightarrow> state" where
  "createElement t s = s\<lparr>nodes := nodes s @ [blank t]\<rparr>"

definition cl_add :: "string \<Rightarrow> element \<Rightarrow> element" where
  "cl_add c e = (if c \<in> set (classes e) then e else e\<lparr>classes := classes e @ [c]\<rparr>)"

definition cl_remove :: "string \<Rightarrow> element \<Rightarrow> element" where
  "cl_remove c e = e\<lparr>classes := removeAll c (classes e)\<rparr>"

definition classList_add :: "node \<Rightarrow> string \<Rightarrow> state \<Rightarrow> state" where
  "classList_add n c = upd n (cl_add c)"

definition classList_remove :: "node \<Rightarrow> string \<Rightarrow> state \<Rightarrow> state" where
  "classList_remove n c = upd n (cl_remove c)"

definition appendChild :: "node \<Rightarrow> node \<Rightarrow> state \<Rightarrow> state" where
  "appendChild p c = upd c (\<lambda>e. e\<lparr>parent := Some p\<rparr>)"

definition remove_node :: "node \<Rightarrow> state \<Rightarrow> state" where
  "remove_node n = upd n (\<lambda>e. e\<lparr>parent := None\<rparr>)"

definition setTimeout :: "timer_action \<Rightarrow> nat \<Rightarrow> state \<Rightarrow> state" where
  "setTimeout a d s = s\<lparr>timers := timers s @ [(clock s + d, a)]\<rparr>"

text \<open>The chain of a node and its ancestors, the node first: the propagation path of an
  event dispatched at the node. The fuel is the size of the store.\<close>

fun chain :: "nat \<Rightarrow> element list \<Rightarrow> node \<Rightarrow> node list" where
  "chain 0 ns n = []"
| "chain (Suc k) ns n =
     (if n < length ns
      then n # (case parent (ns ! n) of None \<Rightarrow> [] | Some p \<Rightarrow> chain k ns p)
      else [])"

definition path :: "state \<Rightarrow> node \<Rightarrow> node list" where
  "path s n = chain (length (nodes s)) (nodes s) n"

definition isConnected :: "state \<Rightarrow> node \<Rightarrow> bool" where
  "isConnected s n = (body s \<in> set (path s n))"

definition querySelectorAll :: "(element \<Rightarrow> bool) \<Rightarrow> state \<Rightarrow> node list" where
  "querySelectorAll sel s =
     filter (\<lambda>n. isConnected s n \<and> sel (nodes s ! n)) [0..<length (nodes s)]"

text \<open>The selectors of the source.\<close>

definition has_class :: "string \<Rightarrow> element \<Rightarrow> bool" where
  "has_class c e = (c \<in> set (classes e))"

definition sel_interactive :: "element \<Rightarrow> bool" where
  "sel_interactive e =
     (tag e \<in> set [''a'', ''button'', ''input'', ''select''] \<or>
      list_ex (\<lambda>c. has_class c e)
        [''btn'', ''nav-btn'', ''card'', ''kpi-card'', ''icon'', ''history-card-delete''])"

definition sel_cards :: "element \<Rightarrow> bool" where
  "sel_cards e = list_ex (\<lambda>c. has_class c e) [''card'', ''kpi-card'', ''history-card'']"

subsection \<open>Pointer moves\<close>

text \<open>\<open>handleMouseMove(e)\<close>, with \<open>now\<close> the value of \<open>Date.now()\<close> when the handler runs.\<close>

definition handleMouseMove :: "int \<Rightarrow> real \<Rightarrow> real \<Rightarrow> state \<Rightarrow> state" where
  "handleMouseMove now clientX clientY s =
     (if now - lastMouseMoveTime s < mouseMoveThrottle s then s
      else s\<lparr>lastMouseMoveTime := now,
             mouseVelocityX := clientX - lastMouseX s,
             mouseVelocityY := clientY - lastMouseY s,
             lastMouseX := clientX,
             lastMouseY := clientY,
             mouseX := clientX,
             mouseY := clientY\<rparr>)"

text \<open>\<open>handleCardHover(e)\<close>: every card of the document gets the pointer position relative
  to its own box.\<close>

definition handleCardHover :: "real \<Rightarrow> real \<Rightarrow> state \<Rightarrow> state" where
  "handleCardHover clientX clientY s =
     fold (\<lambda>card s'.
            upd card (\<lambda>e. e\<lparr>st_x := Some (clientX - r_left (bbox e)),
                             st_y := Some (clientY - r_top (bbox e))\<rparr>) s')
          (querySelectorAll sel_cards s) s"

subsection \<open>Background builder\<close>

text \<open>
  \<open>createMotionBackground()\<close>: one container appended to the body, and below it the grid,
  four layers, a particle container with 20 particles, and a shape container with 25
  shapes. The random rotation that \<open>cssText\<close> gives a square or a line is not tracked: the
  first frame, which \<open>init\<close> runs synchronously, overwrites the transform of every shape.
\<close>

definition layer_class :: "nat \<Rightarrow> string" where
  "layer_class i = ''layer-'' @ [''0123456789'' ! i]"

definition mkLayer :: "node \<Rightarrow> nat \<Rightarrow> state \<Rightarrow> state" where
  "mkLayer mb i s =
     (let layer = length (nodes s);
          s1 = createElement ''div'' s;
          s2 = upd layer (\<lambda>e. e\<lparr>classes := [''layer'', layer_class i],
                                   st_position := Some ''absolute''\<rparr>) s1;
          s3 = appendChild mb layer s2
      in s3\<lparr>layers := layers s3 @ [layer]\<rparr>)"

definition mkParticle :: "node \<Rightarrow> nat \<Rightarrow> state \<Rightarrow> state" where
  "mkParticle pc i s =
     (let particle = length (nodes s);
          s1 = createElement ''div'' s;
          s2 = upd particle (\<lambda>e. e\<lparr>classes := [''particle''],
                                      st_position := Some ''absolute''\<rparr>) s1;
          s3 = appendChild pc particle s2
      in s3\<lparr>particles := particles s3 @ [particle]\<rparr>)"

definition mkShape :: "node \<Rightarrow> nat \<Rightarrow> state \<Rightarrow> state" where
  "mkShape ic i s =
     (let shape = length (nodes s);
          s1 = createElement ''div'' s;
          s2 = upd shape (\<lambda>e. e\<lparr>classes := [''floating-shape''],
                                   st_position := Some ''absolute''\<rparr>) s1;
          s3 = appendChild ic shape s2
      in s3\<lparr>floatingShapes :=
              Some ((case floatingShapes s3 of None \<Rightarrow> [] | Some fs \<Rightarrow> fs) @ [shape])\<rparr>)"

definition createMotionBackground :: "state \<Rightarrow> state" where
  "createMotionBackground s =
     (if prefersReducedMotion s then s
      else
        let mb = length (nodes s);
            s1 = createElement ''div'' s;
            s2 = upd mb (\<lambda>e. e\<lparr>classes := [''motion-background''],
                                  st_position := Some ''fixed'',
                                  st_top := Some 0, st_left := Some 0\<rparr>) s1;
            s3 = appendChild (body s2) mb (s2\<lparr>motionBackground := Some mb\<rparr>);
            grid = length (nodes s3);
            s4 = createElement ''div'' s3;
            s5 = upd grid (\<lambda>e. e\<lparr>st_position := Some ''absolute'',
                                    st_top := Some 0, st_left := Some 0\<rparr>) s4;
            s6 = appendChild mb grid (s5\<lparr>gridElement := Some grid\<rparr>);
            s7 = fold (mkLayer mb) [1..<5] s6;
            pc = length (nodes s7);
            s8 = createElement ''div'' s7;
            s9 = upd pc (\<lambda>e. e\<lparr>classes := [''particles''],
                                  st_position := Some ''absolute''\<rparr>) s8;
            s10 = appendChild mb pc s9;
            s11 = fold (mkParticle pc) [0..<20] s10;
            ic = length (nodes s11);
            s12 = createElement ''div'' s11;
            s13 = upd ic (\<lambda>e. e\<lparr>classes := [''floating-icons''],
                                  st_position := Some ''absolute''\<rparr>) s12;
            s14 = appendChild mb ic s13
        in fold (mkShape ic) [0..<25] s14)"

subsection \<open>Cursor, trail and ripple\<close>

text \<open>
  The listeners that \<open>setupInteractiveElements\<close> and \<open>addInteractiveListeners\<close> attach are
  the same five closures, written twice in the source. A listener that dereferences
  \<open>this.cursor\<close> throws when the field is \<open>null\<close>; the effects before the throw stay.
\<close>

definition addInteractiveListeners :: "node \<Rightarrow> state \<Rightarrow> state" where
  "addInteractiveListeners el = upd el (\<lambda>e. e\<lparr>wired := Suc (wired e)\<rparr>)"

definition cursor_classes :: "(string \<Rightarrow> element \<Rightarrow> element) \<Rightarrow> string \<Rightarrow> state \<Rightarrow> state" where
  "cursor_classes f c s =
     (case cursor s of None \<Rightarrow> s
      | Some cu \<Rightarrow>
          (let s1 = upd cu (f c) s
           in case cursorDot s1 of None \<Rightarrow> s1 | Some d \<Rightarrow> upd d (f c) s1))"

definition on_mouseenter :: "state \<Rightarrow> state" where
  "on_mouseenter s = cursor_classes cl_add ''hover'' (s\<lparr>cursorHover := True\<rparr>)"

definition on_mouseleave :: "state \<Rightarrow> state" where
  "on_mouseleave s = cursor_classes cl_remove ''hover'' (s\<lparr>cursorHover := False\<rparr>)"

definition on_mousedown :: "state \<Rightarrow> state" where
  "on_mousedown s = cursor_classes cl_add ''active'' (s\<lparr>cursorActive := True\<rparr>)"

definition on_mouseup :: "state \<Rightarrow> state" where
  "on_mouseup s = cursor_classes cl_remove ''active'' (s\<lparr>cursorActive := False\<rparr>)"

text \<open>\<open>createRippleEffect(event)\<close>, with \<open>el\<close> the event's \<open>currentTarget\<close>.\<close>

definition createRippleEffect :: "node \<Rightarrow> real \<Rightarrow> real \<Rightarrow> state \<Rightarrow> state" where
  "createRippleEffect el clientX clientY s =
     (if prefersReducedMotion s then s
      else
        let ripple = length (nodes s);
            s1 = createElement ''div'' s;
            s2 = upd ripple (\<lambda>e. e\<lparr>st_position := Some ''absolute'',
                                      st_transform := [Scale 0]\<rparr>) s1;
            r = bbox (nodes s2 ! el);
            size = max (r_width r) (r_height r);
            x = clientX - r_left r - size / 2;
            y = clientY - r_top r - size / 2;
            s3 = upd ripple (\<lambda>e. e\<lparr>st_width := Some size, st_height := Some size\<rparr>) s2;
            s4 = upd ripple (\<lambda>e. e\<lparr>st_left := Some x\<rparr>) s3;
            s5 = upd ripple (\<lambda>e. e\<lparr>st_top := Some y\<rparr>) s4;
            s6 = upd el (\<lambda>e. e\<lparr>st_position := Some ''relative''\<rparr>) s5;
            s7 = appendChild el ripple s6
        in setTimeout (RemoveNode ripple) 600 s7)"

text \<open>
  The callback of \<open>observeNewElements\<close>, on the added nodes of one delivery. For an added
  element that itself matches the selectors the source calls \<open>push\<close> on the NodeList that
  \<open>querySelectorAll\<close> returned; a NodeList has no \<open>push\<close>, so the call throws and the rest of
  the delivery is skipped.
\<close>

definition descendants :: "(element \<Rightarrow> bool) \<Rightarrow> node \<Rightarrow> state \<Rightarrow> node list" where
  "descendants sel n s =
     filter (\<lambda>m. m \<noteq> n \<and> n \<in> set (path s m) \<and> sel (nodes s ! m)) [0..<length (nodes s)]"

fun observeNewElements_callback :: "node list \<Rightarrow> state \<Rightarrow> js_error option \<times> state" where
  "observeNewElements_callback [] s = (None, s)"
| "observeNewElements_callback (n # ns) s =
     (if sel_interactive (nodes s ! n) then (Some TypeError, s)
      else observeNewElements_callback ns
             (fold addInteractiveListeners (descendants sel_interactive n s) s))"

definition setupInteractiveElements :: "state \<Rightarrow> state" where
  "setupInteractiveElements s =
     (let s1 = fold addInteractiveListeners (querySelectorAll sel_interactive s) s
      in s1\<lparr>mo_observing := True\<rparr>)"

definition mkTrailDot :: "nat \<Rightarrow> state \<Rightarrow> state" where
  "mkTrailDot i s =
     (let trailDot = length (nodes s);
          s1 = createElement ''div'' s;
          s2 = upd trailDot (\<lambda>e. e\<lparr>classes := [''custom-cursor-trail''],
                                      st_position := Some ''fixed'',
                                      st_width := Some 4, st_height := Some 4\<rparr>) s1;
          s3 = appendChild (body s2) trailDot s2
      in s3\<lparr>cursorTrail := cursorTrail s3 @ [trailDot]\<rparr>)"

definition createCustomCursor :: "state \<Rightarrow> state" where
  "createCustomCursor s =
     (if prefersReducedMotion s then s
      else
        let cu = length (nodes s);
            s1 = createElement ''div'' s;
            s2 = upd cu (\<lambda>e. e\<lparr>classes := [''custom-cursor'']\<rparr>) s1;
            s3 = appendChild (body s2) cu (s2\<lparr>cursor := Some cu\<rparr>);
            d = length (nodes s3);
            s4 = createElement ''div'' s3;
            s5 = upd d (\<lambda>e. e\<lparr>classes := [''custom-cursor-dot'']\<rparr>) s4;
            s6 = appendChild (body s5) d (s5\<lparr>cursorDot := Some d\<rparr>);
            s7 = fold mkTrailDot [0..<maxTrailLength s6] s6;
            s8 = upd cu (\<lambda>e. e\<lparr>st_top := Some (- 100)\<rparr>) s7;
            s9 = upd cu (\<lambda>e. e\<lparr>st_left := Some (- 100)\<rparr>) s8;
            s10 = upd d (\<lambda>e. e\<lparr>st_top := Some (- 100)\<rparr>) s9;
            s11 = upd d (\<lambda>e. e\<lparr>st_left := Some (- 100)\<rparr>) s10
        in setupInteractiveElements s11)"

subsection \<open>Scroll reveal\<close>

definition io_observe :: "node \<Rightarrow> state \<Rightarrow> state" where
  "io_observe el s =
     (case intersectionObserver s of None \<Rightarrow> s
      | Some ts \<Rightarrow> s\<lparr>intersectionObserver := Some (if el \<in> set ts then ts else ts @ [el])\<rparr>)"

definition setupScrollAnimations :: "state \<Rightarrow> state" where
  "setupScrollAnimations s =
     (let s1 = s\<lparr>intersectionObserver := Some []\<rparr>;
          s2 = s1\<lparr>animatedElements := querySelectorAll (has_class ''animate-on-scroll'') s1\<rparr>;
          s3 = s2\<lparr>staggerGroups := querySelectorAll (has_class ''stagger-group'') s2\<rparr>;
          s4 = fold io_observe (animatedElements s3) s3
      in fold io_observe (staggerGroups s4) s4)"

text \<open>The callback given to the IntersectionObserver, on the entries of one delivery
  (target and \<open>isIntersecting\<close>).\<close>

definition intersection_callback :: "(node \<times> bool) list \<Rightarrow> state \<Rightarrow> state" where
  "intersection_callback entries s =
     fold (\<lambda>(target, isIntersecting) s'.
            if isIntersecting
            then (let s1 = classList_add target ''visible'' s'
                  in if has_class ''stagger-group'' (nodes s1 ! target)
                     then classList_add target ''visible'' s1 else s1)
            else s')
          entries s"

definition isElementInViewport :: "node \<Rightarrow> state \<Rightarrow> bool" where
  "isElementInViewport el s =
     (let r = bbox (nodes s ! el);
          windowHeight = (if innerHeight s \<noteq> 0 then innerHeight s else clientHeight s);
          threshold = 100
      in r_top r \<le> windowHeight - threshold \<and> r_bottom r \<ge> 0)"

definition checkElementsInViewport :: "state \<Rightarrow> state" where
  "checkElementsInViewport s =
     (if prefersReducedMotion s
      then (let s1 = fold (\<lambda>el. classList_add el ''visible'') (animatedElements s) s
            in fold (\<lambda>group. classList_add group ''visible'') (staggerGroups s1) s1)
      else (let s1 = fold (\<lambda>el s'. if isElementInViewport el s'
                                     then classList_add el ''visible'' s' else s')
                          (animatedElements s) s
            in fold (\<lambda>group s'. if isElementInViewport group s'
                                  then classList_add group ''visible'' s' else s')
                    (staggerGroups s1) s1))"

subsection \<open>Event wiring\<close>

definition setupEventListeners :: "state \<Rightarrow> state" where
  "setupEventListeners s = s\<lparr>listening := True\<rparr>"

definition handleResize :: "state \<Rightarrow> state" where
  "handleResize s =
     checkElementsInViewport (s\<lparr>centerX := innerWidth s / 2, centerY := innerHeight s / 2\<rparr>)"

definition handleThemeChange :: "state \<Rightarrow> state" where
  "handleThemeChange s =
     setTimeout (RemoveClass (body s) ''theme-transitioning'') 600
       (classList_add (body s) ''theme-transitioning'' s)"

subsection \<open>Per-frame updater\<close>

text \<open>\<open>parseFloat(v) || d\<close>: an unset property parses to NaN and zero is falsy, so both
  give the fallback.\<close>

definition parseFloat_or :: "real option \<Rightarrow> real \<Rightarrow> real" where
  "parseFloat_or v d = (case v of None \<Rightarrow> d | Some x \<Rightarrow> if x = 0 then d else x)"

definition centred :: "real \<Rightarrow> real \<Rightarrow> tfn list" where
  "centred x y = [Translate x y, TranslatePct (- 50) (- 50)]"

definition trailStep :: "real \<Rightarrow> real \<Rightarrow> nat \<Rightarrow> state \<Rightarrow> state" where
  "trailStep x y i s =
     (let current = cursorTrail s ! i;
          previous = cursorTrail s ! (i - 1);
          currentX = parseFloat_or (st_left (nodes s ! current)) x;
          currentY = parseFloat_or (st_top (nodes s ! current)) y;
          previousX = parseFloat_or (st_left (nodes s ! previous)) x;
          previousY = parseFloat_or (st_top (nodes s ! previous)) y;
          newX = currentX + (previousX - currentX) * 0.3;
          newY = currentY + (previousY - currentY) * 0.3
      in upd current (\<lambda>e. e\<lparr>st_transform := centred newX newY\<rparr>) s)"

definition updateCursorTrail :: "real \<Rightarrow> real \<Rightarrow> state \<Rightarrow> state" where
  "updateCursorTrail x y s =
     (let s1 = fold (trailStep x y) (rev [1..<length (cursorTrail s)]) s
      in case cursorTrail s1 of [] \<Rightarrow> s1
         | t0 # _ \<Rightarrow> upd t0 (\<lambda>e. e\<lparr>st_transform := centred x y\<rparr>) s1)"

definition updateCursor :: "state \<Rightarrow> state" where
  "updateCursor s =
     (case (cursor s, cursorDot s) of
        (Some cu, Some d) \<Rightarrow>
          if prefersReducedMotion s then s
          else
            let targetX = mouseX s;
                targetY = mouseY s;
                currentX = parseFloat_or (st_left (nodes s ! cu)) targetX;
                currentY = parseFloat_or (st_top (nodes s ! cu)) targetY;
                newX = currentX + (targetX - currentX) * 0.1;
                newY = currentY + (targetY - currentY) * 0.1;
                s1 = upd cu (\<lambda>e. e\<lparr>st_transform := centred newX newY\<rparr>) s;
                s2 = upd d (\<lambda>e. e\<lparr>st_transform := centred targetX targetY\<rparr>) s1
            in updateCursorTrail targetX targetY s2
      | _ \<Rightarrow> s)"

definition is_translate :: "tfn \<Rightarrow> bool" where
  "is_translate t = (case t of Translate _ _ \<Rightarrow> True | TranslatePct _ _ \<Rightarrow> True | _ \<Rightarrow> False)"

definition updateMotionBackground :: "state \<Rightarrow> state" where
  "updateMotionBackground s =
     (if layers s = [] \<or> prefersReducedMotion s then s
      else
        let distX = mouseX s - centerX s + mouseVelocityX s * 2;
            distY = mouseY s - centerY s + mouseVelocityY s * 2;
            s1 = fold (\<lambda>(index, layer).
                        let intensity = (real index + 1) * 0.02;
                            translateX = distX * intensity;
                            translateY = distY * intensity;
                            rotation = (distX * 0.0002) + (distY * 0.0002)
                        in upd layer (\<lambda>e. e\<lparr>st_transform :=
                              [Translate translateX translateY, Rotate rotation]\<rparr>))
                      (enumerate 0 (layers s)) s;
            s2 = (case gridElement s1 of None \<Rightarrow> s1
                  | Some grid \<Rightarrow>
                      let gridIntensity = 0.15;
                          gridTranslateX = distX * gridIntensity;
                          gridTranslateY = distY * gridIntensity;
                          gridRotation = (distX + distY) * 0.0005;
                          gridScale = 1 + \<bar>mouseVelocityX s1 + mouseVelocityY s1\<bar> * 0.0001
                      in upd grid (\<lambda>e. e\<lparr>st_transform :=
                            [Translate gridTranslateX gridTranslateY, Rotate gridRotation,
                             Scale gridScale]\<rparr>) s1);
            s3 = fold (\<lambda>(index, particle).
                        let intensity = 0.005 + real (index mod 3) * 0.002;
                            translateX = distX * intensity;
                            translateY = distY * intensity
                        in upd particle (\<lambda>e. e\<lparr>st_transform :=
                              Translate translateX translateY
                                # filter (\<lambda>t. \<not> is_translate t) (st_transform e)\<rparr>))
                      (enumerate 0 (particles s2)) s2
        in case floatingShapes s3 of None \<Rightarrow> s3
           | Some shapes \<Rightarrow>
               fold (\<lambda>(index, shape).
                      let intensity = 0.03 + real (index mod 5) * 0.01;
                          translateX = distX * intensity;
                          translateY = distY * intensity;
                          scale = 1 + \<bar>distX + distY\<bar> * 0.0001
                      in upd shape (\<lambda>e. e\<lparr>st_transform :=
                            [Translate translateX translateY, Scale scale]\<rparr>))
                    (enumerate 0 shapes) s3)"

definition requestAnimationFrame :: "state \<Rightarrow> nat \<times> state" where
  "requestAnimationFrame s =
     (let h = Suc (raf_counter s)
      in (h, s\<lparr>raf_counter := h, raf_pending := raf_pending s @ [h]\<rparr>))"

definition cancelAnimationFrame :: "nat \<Rightarrow> state \<Rightarrow> state" where
  "cancelAnimationFrame h s = s\<lparr>raf_pending := removeAll h (raf_pending s)\<rparr>"

definition animate :: "state \<Rightarrow> state" where
  "animate s =
     (let s1 = updateCursor s;
          s2 = updateMotionBackground s1;
          (h, s3) = requestAnimationFrame s2
      in s3\<lparr>animationFrameId := Some h\<rparr>)"

definition startAnimationLoop :: "state \<Rightarrow> state" where
  "startAnimationLoop s = animate s"

subsection \<open>Page transition, public methods, teardown\<close>

definition animatePageTransition :: "state \<Rightarrow> state" where
  "animatePageTransition s =
     (case querySelectorAll (has_class ''main'') s of
        [] \<Rightarrow> s
      | mainContent # _ \<Rightarrow>
          setTimeout (AddClass mainContent ''active'') 50
            (classList_add mainContent ''page-transition'' s))"

definition addShimmerLoading :: "node \<Rightarrow> state \<Rightarrow> state" where
  "addShimmerLoading el s =
     (if prefersReducedMotion s then s
      else setTimeout (RemoveClass el ''loading'') 2000 (classList_add el ''loading'' s))"

definition triggerPageTransition :: "state \<Rightarrow> state" where
  "triggerPageTransition s =
     fold (\<lambda>section s'.
            setTimeout (AddClass section ''active'') 100
              (classList_add section ''page-transition'' s'))
          (querySelectorAll (has_class ''dashboard-section'') s) s"

definition destroy :: "state \<Rightarrow> state" where
  "destroy s =
     (let s1 = (case animationFrameId s of
                  Some h \<Rightarrow> if h \<noteq> 0 then cancelAnimationFrame h s else s
                | None \<Rightarrow> s);
          s2 = (case intersectionObserver s1 of
                  Some _ \<Rightarrow> s1\<lparr>intersectionObserver := Some []\<rparr>
                | None \<Rightarrow> s1);
          s3 = (case cursor s2 of Some cu \<Rightarrow> remove_node cu s2 | None \<Rightarrow> s2);
          s4 = (case cursorDot s3 of Some d \<Rightarrow> remove_node d s3 | None \<Rightarrow> s3);
          s5 = fold remove_node (cursorTrail s4) s4
      in case motionBackground s5 of Some mb \<Rightarrow> remove_node mb s5 | None \<Rightarrow> s5)"

definition init :: "state \<Rightarrow> state" where
  "init s =
     (let s1 = createMotionBackground s;
          s2 = createCustomCursor s1;
          s3 = setupScrollAnimations s2;
          s4 = setupEventListeners s3;
          s5 = startAnimationLoop s4
      in animatePageTransition s5)"

text \<open>What the constructor finds: the host document and the browser's settings.\<close>

record env =
  doc :: "element list"
  doc_body :: node
  win_width :: real
  win_height :: real
  doc_clientHeight :: real
  reduced_motion :: bool
  raf0 :: nat
  clock0 :: nat

definition constructor_fields :: "env \<Rightarrow> state" where
  "constructor_fields e =
     \<lparr>nodes = doc e, body = doc_body e,
      innerWidth = win_width e, innerHeight = win_height e,
      clientHeight = doc_clientHeight e,
      clock = clock0 e, timers = [], raf_counter = raf0 e, raf_pending = [],
      listening = False, mo_observing = False,
      motionBackground = None, gridElement = None, layers = [], particles = [],
      floatingShapes = None,
      mouseX = 0, mouseY = 0,
      centerX = win_width e / 2, centerY = win_height e / 2,
      mouseVelocityX = 0, mouseVelocityY = 0, lastMouseX = 0, lastMouseY = 0,
      cursor = None, cursorDot = None,
      cursorVisible = True, cursorHover = False, cursorActive = False,
      cursorTrail = [], maxTrailLength = 8,
      animatedElements = [], staggerGroups = [], intersectionObserver = None,
      animationFrameId = None, lastScrollTime = 0, lastMouseMoveTime = 0,
      scrollThrottle = 16, mouseMoveThrottle = 8,
      prefersReducedMotion = reduced_motion e\<rparr>"

definition new_MotionEffects :: "env \<Rightarrow> state" where
  "new_MotionEffects e = init (constructor_fields e)"

section \<open>What can happen to a running component\<close>

text \<open>
  The entry points of a constructed component: the listeners it installed, the callbacks
  it handed to observers, timers and the frame scheduler, and its public methods. Two
  more events belong to the host page and the layout engine: a new element inserted under
  a parent, and a new bounding box for a node.
\<close>

datatype event =
    MouseMove int real real
  | DocMouseEnter
  | DocMouseLeave
  | MouseDown node
  | MouseUp node
  | MouseEnter node
  | MouseLeave node
  | Click node real real
  | Resize real real
  | ThemeChange
  | Frame
  | Intersection "(node \<times> bool) list"
  | Mutation "node list"
  | Advance nat
  | CallAddShimmerLoading node
  | CallTriggerPageTransition
  | CallDestroy
  | HostInsert node string "string list" rect
  | Layout node rect

text \<open>An event dispatched at a node runs the listeners of the node and then of each
  ancestor, every attached copy once. \<open>mouseenter\<close> and \<open>mouseleave\<close> do not bubble.\<close>

definition dispatch :: "(node \<Rightarrow> state \<Rightarrow> state) \<Rightarrow> node \<Rightarrow> state \<Rightarrow> state" where
  "dispatch h n s = fold (\<lambda>m s'. ((h m) ^^ wired (nodes s' ! m)) s') (path s n) s"

definition dispatch_at :: "(state \<Rightarrow> state) \<Rightarrow> node \<Rightarrow> state \<Rightarrow> state" where
  "dispatch_at h n s = (if n < length (nodes s) then (h ^^ wired (nodes s ! n)) s else s)"

definition fire :: "timer_action \<Rightarrow> state \<Rightarrow> state" where
  "fire a = (case a of
       RemoveNode n \<Rightarrow> remove_node n
     | AddClass n c \<Rightarrow> classList_add n c
     | RemoveClass n c \<Rightarrow> classList_remove n c)"

text \<open>The clock moves on by \<open>dt\<close> milliseconds; the timers that are due run in the order of
  their due times, timers of equal due time in the order they were set.\<close>

definition advance :: "nat \<Rightarrow> state \<Rightarrow> state" where
  "advance dt s =
     (let t = clock s + dt;
          due = filter (\<lambda>(d, a). d \<le> t) (timers s);
          rest = filter (\<lambda>(d, a). \<not> d \<le> t) (timers s)
      in fold (\<lambda>(d, a). fire a) (sort_key fst due) (s\<lparr>clock := t, timers := rest\<rparr>))"

text \<open>The browser runs the frame callbacks that are pending when the frame starts.\<close>

definition frame :: "state \<Rightarrow> state" where
  "frame s = fold (\<lambda>h. animate) (raf_pending s) (s\<lparr>raf_pending := []\<rparr>)"

fun exec :: "event \<Rightarrow> state \<Rightarrow> state" where
  "exec (MouseMove now x y) s =
     (if listening s then handleCardHover x y (handleMouseMove now x y s) else s)"
| "exec DocMouseEnter s = (if listening s then s\<lparr>cursorVisible := True\<rparr> else s)"
| "exec DocMouseLeave s = (if listening s then s\<lparr>cursorVisible := False\<rparr> else s)"
| "exec (MouseDown n) s =
     (let s1 = dispatch (\<lambda>m. on_mousedown) n s
      in if listening s1 \<and> isConnected s1 n then s1\<lparr>cursorActive := True\<rparr> else s1)"
| "exec (MouseUp n) s =
     (let s1 = dispatch (\<lambda>m. on_mouseup) n s
      in if listening s1 \<and> isConnected s1 n then s1\<lparr>cursorActive := False\<rparr> else s1)"
| "exec (MouseEnter n) s = dispatch_at on_mouseenter n s"
| "exec (MouseLeave n) s = dispatch_at on_mouseleave n s"
| "exec (Click n x y) s = dispatch (\<lambda>m. createRippleEffect m x y) n s"
| "exec (Resize w h) s =
     (let s1 = s\<lparr>innerWidth := w, innerHeight := h\<rparr>
      in if listening s1 then handleResize s1 else s1)"
| "exec ThemeChange s = (if listening s then handleThemeChange s else s)"
| "exec Frame s = frame s"
| "exec (Intersection entries) s =
     (case intersectionObserver s of
        None \<Rightarrow> s
      | Some ts \<Rightarrow> intersection_callback (filter (\<lambda>(t, b). t \<in> set ts) entries) s)"
| "exec (Mutation added) s =
     (if mo_observing s
      then snd (observeNewElements_callback (filter (\<lambda>n. n < length (nodes s)) added) s)
      else s)"
| "exec (Advance dt) s = advance dt s"
| "exec (CallAddShimmerLoading el) s = addShimmerLoading el s"
| "exec CallTriggerPageTransition s = triggerPageTransition s"
| "exec CallDestroy s = destroy s"
| "exec (HostInsert p t cs r) s =
     s\<lparr>nodes := nodes s @ [(blank t)\<lparr>classes := cs, parent := Some p, bbox := r\<rparr>]\<rparr>"
| "exec (Layout n r) s = upd n (\<lambda>e. e\<lparr>bbox := r\<rparr>) s"

definition run :: "event list \<Rightarrow> state \<Rightarrow> state" where
  "run evs s = fold exec evs s"

section \<open>Vocabulary of the proofs\<close>

subsection \<open>What a step may change\<close>

text \<open>
  The only class names the component ever removes are these four. A pending timer is
  benign when it removes an existing node, adds a class, or removes one of the four.
\<close>

definition removable :: "string list" where
  "removable = [''hover'', ''active'', ''loading'', ''theme-transitioning'']"

definition benign :: "state \<Rightarrow> timer_action \<Rightarrow> bool" where
  "benign s a = (case a of
       RemoveNode n \<Rightarrow> n < length (nodes s)
     | AddClass n c \<Rightarrow> True
     | RemoveClass n c \<Rightarrow> c \<in> set removable)"

definition timers_ok :: "state \<Rightarrow> bool" where
  "timers_ok s = list_all (\<lambda>(d, a). benign s a) (timers s)"

text \<open>
  \<open>el_mono e e'\<close>: how a node that exists may differ after a step. Its parent is kept or
  lost, never replaced; it keeps every class outside the four removable ones; its inline
  position is kept or becomes \<open>relative\<close>; \<open>left\<close>, \<open>top\<close> and the tag are kept; listeners are
  only added.
\<close>

definition el_mono :: "element \<Rightarrow> element \<Rightarrow> bool" where
  "el_mono e e' =
     ((parent e' = parent e \<or> parent e' = None) \<and>
      (\<forall>c. c \<notin> set removable \<longrightarrow> has_class c e \<longrightarrow> has_class c e') \<and>
      (st_position e' = st_position e \<or> st_position e' = Some ''relative'') \<and>
      st_left e' = st_left e \<and> st_top e' = st_top e \<and>
      wired e \<le> wired e' \<and> tag e' = tag e)"

definition grows :: "state \<Rightarrow> state \<Rightarrow> bool" where
  "grows s s' =
     (length (nodes s) \<le> length (nodes s') \<and>
      (\<forall>n<length (nodes s). el_mono (nodes s ! n) (nodes s' ! n)) \<and>
      body s' = body s \<and> cursor s' = cursor s \<and> cursorDot s' = cursorDot s \<and>
      cursorTrail s' = cursorTrail s \<and> motionBackground s' = motionBackground s \<and>
      gridElement s' = gridElement s \<and> layers s' = layers s \<and>
      particles s' = particles s \<and> floatingShapes s' = floatingShapes s \<and>
      maxTrailLength s' = maxTrailLength s \<and>
      prefersReducedMotion s' = prefersReducedMotion s \<and>
      mouseMoveThrottle s' = mouseMoveThrottle s \<and>
      (listening s \<longrightarrow> listening s') \<and>
      (timers_ok s \<longrightarrow> timers_ok s'))"

definition ptr :: "state \<Rightarrow> real \<times> real \<times> real \<times> real \<times> real \<times> real \<times> int" where
  "ptr s = (mouseX s, mouseY s, lastMouseX s, lastMouseY s,
            mouseVelocityX s, mouseVelocityY s, lastMouseMoveTime s)"

definition ptr_same :: "state \<Rightarrow> state \<Rightarrow> bool" where
  "ptr_same s s' = (ptr s' = ptr s)"

definition raf_same :: "state \<Rightarrow> state \<Rightarrow> bool" where
  "raf_same s s' =
     (raf_pending s' = raf_pending s \<and> animationFrameId s' = animationFrameId s \<and>
      raf_counter s' = raf_counter s)"

definition calm :: "state \<Rightarrow> state \<Rightarrow> bool" where
  "calm s s' = (grows s s' \<and> ptr_same s s')"

definition io_same :: "state \<Rightarrow> state \<Rightarrow> bool" where
  "io_same s s' = (intersectionObserver s' = intersectionObserver s)"

definition semi :: "state \<Rightarrow> state \<Rightarrow> bool" where
  "semi s s' = (calm s s' \<and> raf_same s s')"

definition quiet :: "state \<Rightarrow> state \<Rightarrow> bool" where
  "quiet s s' = (calm s s' \<and> raf_same s s' \<and> io_same s s')"

text \<open>At most one frame callback is pending, and it is the one the instance remembers.\<close>

definition raf_ok :: "state \<Rightarrow> bool" where
  "raf_ok s = (case animationFrameId s of
       None \<Rightarrow> raf_pending s = []
     | Some h \<Rightarrow> h \<noteq> 0 \<and> (raf_pending s = [] \<or> raf_pending s = [h]))"

text \<open>\<open>el_cos e e'\<close>: the two differ at most in class list and transform.\<close>

definition el_cos :: "element \<Rightarrow> element \<Rightarrow> bool" where
  "el_cos e e' =
     (parent e' = parent e \<and> bbox e' = bbox e \<and> tag e' = tag e \<and>
      st_position e' = st_position e \<and> st_left e' = st_left e \<and> st_top e' = st_top e \<and>
      st_width e' = st_width e \<and> st_height e' = st_height e \<and>
      st_x e' = st_x e \<and> st_y e' = st_y e \<and> wired e' = wired e)"

definition cosmetic :: "state \<Rightarrow> state \<Rightarrow> bool" where
  "cosmetic s s' =
     (length (nodes s') = length (nodes s) \<and>
      (\<forall>n<length (nodes s). el_cos (nodes s ! n) (nodes s' ! n)))"

subsection \<open>The nodes the builders create\<close>

definition div_el :: "string list \<Rightarrow> string \<Rightarrow> node \<Rightarrow> element" where
  "div_el cs pos p = (blank ''div'')\<lparr>classes := cs, parent := Some p, st_position := Some pos\<rparr>"

definition bg_nodes :: "node \<Rightarrow> node \<Rightarrow> element list" where
  "bg_nodes lo b =
     [(div_el [''motion-background''] ''fixed'' b)\<lparr>st_left := Some 0, st_top := Some 0\<rparr>,
      (div_el [] ''absolute'' lo)\<lparr>st_left := Some 0, st_top := Some 0\<rparr>]
     @ map (\<lambda>i. div_el [''layer'', layer_class i] ''absolute'' lo) [1..<5]
     @ [div_el [''particles''] ''absolute'' lo]
     @ replicate 20 (div_el [''particle''] ''absolute'' (lo + 6))
     @ [div_el [''floating-icons''] ''absolute'' lo]
     @ replicate 25 (div_el [''floating-shape''] ''absolute'' (lo + 27))"

definition cursor_el :: "string \<Rightarrow> node \<Rightarrow> element" where
  "cursor_el c b =
     (blank ''div'')\<lparr>classes := [c], parent := Some b,
                     st_left := Some (- 100), st_top := Some (- 100)\<rparr>"

definition trail_el :: "node \<Rightarrow> element" where
  "trail_el b =
     (div_el [''custom-cursor-trail''] ''fixed'' b)\<lparr>st_width := Some 4, st_height := Some 4\<rparr>"

definition cc_nodes :: "node \<Rightarrow> nat \<Rightarrow> element list" where
  "cc_nodes b k =
     [cursor_el ''custom-cursor'' b, cursor_el ''custom-cursor-dot'' b] @ replicate k (trail_el b)"

text \<open>The state between the node building of \<open>createCustomCursor\<close> and its call of
  \<open>setupInteractiveElements\<close>, when reduced motion is off.\<close>

definition built :: "state \<Rightarrow> state" where
  "built s =
     s\<lparr>nodes := nodes s @ bg_nodes (length (nodes s)) (body s)
                  @ cc_nodes (body s) (maxTrailLength s),
       motionBackground := Some (length (nodes s)),
       gridElement := Some (length (nodes s) + 1),
       layers := layers s @ [length (nodes s) + 2..<length (nodes s) + 6],
       particles := particles s @ [length (nodes s) + 7..<length (nodes s) + 27],
       floatingShapes := Some ((case floatingShapes s of None \<Rightarrow> [] | Some fs \<Rightarrow> fs)
          @ [length (nodes s) + 28..<length (nodes s) + 53]),
       cursor := Some (length (nodes s) + 53),
       cursorDot := Some (length (nodes s) + 54),
       cursorTrail := cursorTrail s
          @ [length (nodes s) + 55..<length (nodes s) + 55 + maxTrailLength s]\<rparr>"

text \<open>The state the builders leave, for either setting of reduced motion.\<close>

definition start :: "env \<Rightarrow> state" where
  "start e =
     (if reduced_motion e then constructor_fields e else built (constructor_fields e))"

text \<open>The rest of \<open>init\<close>, after the two builders.\<close>

definition init_tail :: "state \<Rightarrow> state" where
  "init_tail s =
     animatePageTransition (startAnimationLoop (setupEventListeners (setupScrollAnimations s)))"

text \<open>The nodes that \<open>destroy\<close> removes by name.\<close>

definition tops :: "state \<Rightarrow> node list" where
  "tops s =
     (case cursor s of None \<Rightarrow> [] | Some cu \<Rightarrow> [cu]) @
     (case cursorDot s of None \<Rightarrow> [] | Some d \<Rightarrow> [d]) @
     cursorTrail s @
     (case motionBackground s of None \<Rightarrow> [] | Some mb \<Rightarrow> [mb])"

text \<open>
  \<open>owned lo hi s\<close>: each node from \<open>lo\<close> up to \<open>hi\<close> hangs below another node of that range,
  or directly below the body and is then one that \<open>destroy\<close> removes by name, or is
  detached. \<open>sealed lo hi s\<close>: none of them hangs below a node outside the range.
\<close>

definition owned :: "nat \<Rightarrow> nat \<Rightarrow> state \<Rightarrow> bool" where
  "owned lo hi s =
     (\<forall>n. lo \<le> n \<and> n < hi \<longrightarrow>
        (case parent (nodes s ! n) of
           None \<Rightarrow> True
         | Some p \<Rightarrow> (lo \<le> p \<and> p < hi) \<or> (p = body s \<and> n \<in> set (tops s))))"

definition sealed :: "nat \<Rightarrow> nat \<Rightarrow> state \<Rightarrow> bool" where
  "sealed lo hi s =
     (\<forall>n. lo \<le> n \<and> n < hi \<longrightarrow>
        (case parent (nodes s ! n) of None \<Rightarrow> True | Some p \<Rightarrow> lo \<le> p \<and> p < hi))"

text \<open>The intersection observer is absent or observes nothing.\<close>

definition io_off :: "state \<Rightarrow> bool" where
  "io_off s = (intersectionObserver s = None \<or> intersectionObserver s = Some [])"

text \<open>The frame handles still pending after the cancellation in \<open>destroy\<close>.\<close>

definition cancelled :: "state \<Rightarrow> nat list" where
  "cancelled s = (case animationFrameId s of
       Some h \<Rightarrow> if h \<noteq> 0 then removeAll h (raf_pending s) else raf_pending s
     | None \<Rightarrow> raf_pending s)"

subsection \<open>Pointer moves that pass the throttle\<close>

text \<open>The timestamps, in a sequence of pointer moves, of the moves for which the guard of
  \<open>handleMouseMove\<close> lets the handler go on.\<close>

fun accepted :: "(int \<times> real \<times> real) list \<Rightarrow> state \<Rightarrow> int list" where
  "accepted [] s = []"
| "accepted ((now, x, y) # ms) s =
     (if now - lastMouseMoveTime s < mouseMoveThrottle s then [] else [now])
     @ accepted ms (exec (MouseMove now x y) s)"

definition moves :: "(int \<times> real \<times> real) list \<Rightarrow> event list" where
  "moves ms = map (\<lambda>(now, x, y). MouseMove now x y) ms"

subsection \<open>A page to run on\<close>

definition host_el ::
  "string \<Rightarrow> string list \<Rightarrow> node option \<Rightarrow> real \<Rightarrow> real \<Rightarrow> real \<Rightarrow> real \<Rightarrow> element" where
  "host_el t cs p l tp w h =
     (blank t)\<lparr>classes := cs, parent := p,
               bbox := \<lparr>r_left = l, r_top = tp, r_width = w, r_height = h\<rparr>\<rparr>"

text \<open>
  Node 0 is the body. Node 1 is a card tagged for scroll reveal, node 2 a button inside
  the card with an inline \<open>position: absolute\<close>, node 3 a second card away from the first,
  node 4 a dashboard section that is also the main content.
\<close>

definition page :: env where
  "page =
     \<lparr>doc = [host_el ''body'' [] None 0 0 1000 800,
             host_el ''div'' [''card'', ''animate-on-scroll''] (Some 0) 10 10 200 100,
             (host_el ''button'' [] (Some 1) 20 20 50 20)\<lparr>st_position := Some ''absolute''\<rparr>,
             host_el ''div'' [''kpi-card''] (Some 0) 500 400 200 100,
             host_el ''section'' [''dashboard-section'', ''main''] (Some 0) 0 600 1000 2000],
      doc_body = 0, win_width = 1000, win_height = 800, doc_clientHeight = 800,
      reduced_motion = False, raf0 = 0, clock0 = 0\<rparr>"

definition page_reduced :: env where
  "page_reduced = page\<lparr>reduced_motion := True\<rparr>"

text \<open>The pointer is over a box.\<close>

definition inside :: "rect \<Rightarrow> real \<Rightarrow> real \<Rightarrow> bool" where
  "inside r x y =
     (r_left r \<le> x \<and> x \<le> r_left r + r_width r \<and> r_top r \<le> y \<and> y \<le> r_top r + r_height r)"

section \<open>Steps only grow the document\<close>

lemma upd_alt: "upd n f s = s\<lparr>nodes := (nodes s)[n := f (nodes s ! n)]\<rparr>"
  by (simp add: upd_def list_update_beyond)

lemma length_nodes_upd [simp]: "length (nodes (upd n f s)) = length (nodes s)"
  by (simp add: upd_alt)

lemma length_nodes_createElement [simp]:
  "length (nodes (createElement t s)) = Suc (length (nodes s))"
  by (simp add: createElement_def)

lemma nodes_setTimeout [simp]: "nodes (setTimeout a d s) = nodes s"
  by (simp add: setTimeout_def)

lemma nth_nodes_upd:
  "nodes (upd n f s) ! m = (if m = n \<and> n < length (nodes s) then f (nodes s ! n) else nodes s ! m)"
  by (simp add: upd_def)

lemma benign_length:
  "benign s a \<Longrightarrow> length (nodes s) \<le> length (nodes t) \<Longrightarrow> benign t a"
  by (cases a) (simp_all add: benign_def)

lemma timers_ok_mono:
  "timers_ok s \<Longrightarrow> timers t = timers s \<Longrightarrow> length (nodes s) \<le> length (nodes t) \<Longrightarrow> timers_ok t"
  by (auto simp: timers_ok_def list_all_iff intro: benign_length)

lemma benign_cong: "length (nodes t) = length (nodes s) \<Longrightarrow> benign t a = benign s a"
  by (cases a) (simp_all add: benign_def)

lemma timers_ok_cong:
  "timers t = timers s \<Longrightarrow> length (nodes t) = length (nodes s) \<Longrightarrow> timers_ok t = timers_ok s"
  by (simp add: timers_ok_def benign_cong [of t s])

lemma el_mono_refl [simp]: "el_mono e e"
  by (simp add: el_mono_def)

lemma el_mono_trans: "el_mono a b \<Longrightarrow> el_mono b c \<Longrightarrow> el_mono a c"
  by (auto simp: el_mono_def)

lemma grows_refl [simp]: "grows s s"
  by (simp add: grows_def)

lemma grows_trans: "grows s t \<Longrightarrow> grows t u \<Longrightarrow> grows s u"
  unfolding grows_def by (auto intro: el_mono_trans)

lemma calm_refl [simp]: "calm s s"
  by (simp add: calm_def ptr_same_def)

lemma calm_trans: "calm s t \<Longrightarrow> calm t u \<Longrightarrow> calm s u"
  by (auto simp: calm_def ptr_same_def intro: grows_trans)

lemma quiet_refl [simp]: "quiet s s"
  by (simp add: quiet_def raf_same_def io_same_def)

lemma quiet_trans: "quiet s t \<Longrightarrow> quiet t u \<Longrightarrow> quiet s u"
  by (auto simp: quiet_def raf_same_def io_same_def intro: calm_trans)

lemma quiet_calm: "quiet s t \<Longrightarrow> calm s t"
  by (simp add: quiet_def)

lemma calm_grows: "calm s t \<Longrightarrow> grows s t"
  by (simp add: calm_def)

lemma quiet_grows: "quiet s t \<Longrightarrow> grows s t"
  by (simp add: quiet_def calm_def)

lemma quiet_then: "quiet t u \<Longrightarrow> quiet s t \<Longrightarrow> quiet s u"
  by (rule quiet_trans)

lemma calm_then: "calm t u \<Longrightarrow> calm s t \<Longrightarrow> calm s u"
  by (rule calm_trans)

lemma quietI:
  assumes "length (nodes s) \<le> length (nodes t)"
    and "\<And>n. n < length (nodes s) \<Longrightarrow> el_mono (nodes s ! n) (nodes t ! n)"
    and "timers_ok s \<Longrightarrow> timers_ok t"
    and "t\<lparr>nodes := nodes s, timers := timers s\<rparr> = s"
  shows "quiet s t"
proof -
  from assms(4) have eq: "s = t\<lparr>nodes := nodes s, timers := timers s\<rparr>" by simp
  have "body t = body s" "cursor t = cursor s" "cursorDot t = cursorDot s"
    "cursorTrail t = cursorTrail s" "motionBackground t = motionBackground s"
    "gridElement t = gridElement s" "layers t = layers s" "particles t = particles s"
    "floatingShapes t = floatingShapes s" "maxTrailLength t = maxTrailLength s"
    "prefersReducedMotion t = prefersReducedMotion s"
    "mouseMoveThrottle t = mouseMoveThrottle s" "listening t = listening s"
    "ptr t = ptr s" "raf_pending t = raf_pending s" "animationFrameId t = animationFrameId s"
    "raf_counter t = raf_counter s" "intersectionObserver t = intersectionObserver s"
    by (subst eq, simp add: ptr_def)+
  with assms(1-3) show ?thesis
    by (simp add: quiet_def calm_def grows_def ptr_same_def raf_same_def io_same_def)
qed

lemma quiet_upd: "(\<And>e. el_mono e (f e)) \<Longrightarrow> quiet s (upd n f s)"
  by (rule quietI) (auto simp: nth_list_update upd_def intro: timers_ok_mono)

lemma quiet_upd_new: "length (nodes s) \<le> n \<Longrightarrow> quiet s t \<Longrightarrow> quiet s (upd n f t)"
  by (auto simp: quiet_def calm_def raf_same_def io_same_def ptr_same_def ptr_def grows_def
      upd_def intro: timers_ok_mono)

lemma quiet_createElement: "quiet s (createElement t s)"
  by (rule quietI) (auto simp: createElement_def nth_append intro: timers_ok_mono)

lemma quiet_setTimeout: "benign s a \<Longrightarrow> quiet s (setTimeout a d s)"
  by (rule quietI) (auto simp: setTimeout_def timers_ok_def list_all_iff intro: benign_length)

lemma quiet_fold_on:
  "(\<And>x u. x \<in> set xs \<Longrightarrow> quiet u (f x u)) \<Longrightarrow> quiet s (fold f xs s)"
proof (induction xs arbitrary: s)
  case Nil
  show ?case by simp
next
  case (Cons x xs)
  have "quiet s (f x s)" by (rule Cons.prems) simp
  moreover have "quiet (f x s) (fold f xs (f x s))"
    by (rule Cons.IH) (rule Cons.prems, simp)
  ultimately show ?case by (auto intro: quiet_trans)
qed

lemma quiet_fold: "(\<And>x u. quiet u (f x u)) \<Longrightarrow> quiet s (fold f xs s)"
  by (rule quiet_fold_on)

lemma quiet_funpow: "(\<And>u. quiet u (f u)) \<Longrightarrow> quiet s ((f ^^ k) s)"
  by (induction k) (auto intro: quiet_trans)

lemma calm_fold: "(\<And>x u. calm u (f x u)) \<Longrightarrow> calm s (fold f xs s)"
proof (induction xs arbitrary: s)
  case Nil
  show ?case by simp
next
  case (Cons x xs)
  have "calm s (f x s)" by (rule Cons.prems)
  moreover have "calm (f x s) (fold f xs (f x s))" by (rule Cons.IH) (rule Cons.prems)
  ultimately show ?case by (auto intro: calm_trans)
qed

lemmas quiet_updI = quiet_then [OF quiet_upd]
lemmas quiet_createElementI = quiet_then [OF quiet_createElement]
lemmas quiet_setTimeoutI = quiet_then [OF quiet_setTimeout]
lemmas quiet_foldI = quiet_then [OF quiet_fold]

lemma el_mono_simps [simp]:
  "el_mono e (cl_add c e)"
  "c \<in> set removable \<Longrightarrow> el_mono e (cl_remove c e)"
  "el_mono e (e\<lparr>parent := None\<rparr>)"
  "el_mono e (e\<lparr>st_transform := t\<rparr>)"
  "el_mono e (e\<lparr>st_x := a, st_y := b\<rparr>)"
  "el_mono e (e\<lparr>bbox := r\<rparr>)"
  "el_mono e (e\<lparr>st_position := Some ''relative''\<rparr>)"
  "el_mono e (e\<lparr>wired := Suc (wired e)\<rparr>)"
  by (auto simp: el_mono_def cl_add_def cl_remove_def has_class_def)

lemma removable_simps [simp]:
  "''hover'' \<in> set removable" "''active'' \<in> set removable"
  "''loading'' \<in> set removable" "''theme-transitioning'' \<in> set removable"
  "''visible'' \<notin> set removable"
  by (simp_all add: removable_def)

lemma quiet_field [simp]:
  "quiet s (t\<lparr>cursorHover := b\<rparr>) = quiet s t"
  "quiet s (t\<lparr>cursorActive := b\<rparr>) = quiet s t"
  "quiet s (t\<lparr>cursorVisible := b\<rparr>) = quiet s t"
  "quiet s (t\<lparr>innerWidth := w\<rparr>) = quiet s t"
  "quiet s (t\<lparr>innerHeight := w\<rparr>) = quiet s t"
  "quiet s (t\<lparr>centerX := w\<rparr>) = quiet s t"
  "quiet s (t\<lparr>centerY := w\<rparr>) = quiet s t"
  "quiet s (t\<lparr>clock := k\<rparr>) = quiet s t"
  "quiet s (t\<lparr>animatedElements := ns\<rparr>) = quiet s t"
  "quiet s (t\<lparr>staggerGroups := ns\<rparr>) = quiet s t"
  by (simp_all add: quiet_def calm_def grows_def raf_same_def io_same_def ptr_same_def ptr_def
      timers_ok_cong [of "t\<lparr>cursorHover := b\<rparr>" t]
      timers_ok_cong [of "t\<lparr>cursorActive := b\<rparr>" t]
      timers_ok_cong [of "t\<lparr>cursorVisible := b\<rparr>" t]
      timers_ok_cong [of "t\<lparr>innerWidth := w\<rparr>" t]
      timers_ok_cong [of "t\<lparr>innerHeight := w\<rparr>" t]
      timers_ok_cong [of "t\<lparr>centerX := w\<rparr>" t]
      timers_ok_cong [of "t\<lparr>centerY := w\<rparr>" t]
      timers_ok_cong [of "t\<lparr>clock := k\<rparr>" t]
      timers_ok_cong [of "t\<lparr>animatedElements := ns\<rparr>" t]
      timers_ok_cong [of "t\<lparr>staggerGroups := ns\<rparr>" t])

lemma calm_field [simp]:
  "calm s (t\<lparr>raf_pending := p\<rparr>) = calm s t"
  "calm s (t\<lparr>raf_counter := k\<rparr>) = calm s t"
  "calm s (t\<lparr>animationFrameId := i\<rparr>) = calm s t"
  "calm s (t\<lparr>intersectionObserver := io\<rparr>) = calm s t"
  by (simp_all add: calm_def grows_def ptr_same_def ptr_def
      timers_ok_cong [of "t\<lparr>raf_pending := p\<rparr>" t]
      timers_ok_cong [of "t\<lparr>raf_counter := k\<rparr>" t]
      timers_ok_cong [of "t\<lparr>animationFrameId := i\<rparr>" t]
      timers_ok_cong [of "t\<lparr>intersectionObserver := io\<rparr>" t])

lemma handleCardHover_quiet: "quiet s (handleCardHover x y s)"
  unfolding handleCardHover_def by (intro quiet_fold quiet_upd) simp

lemma classList_add_quiet: "quiet s (classList_add n c s)"
  unfolding classList_add_def by (intro quiet_upd) simp

lemma classList_remove_quiet: "c \<in> set removable \<Longrightarrow> quiet s (classList_remove n c s)"
  unfolding classList_remove_def by (intro quiet_upd) simp

lemma remove_node_quiet: "quiet s (remove_node n s)"
  unfolding remove_node_def by (intro quiet_upd) simp

lemma addInteractiveListeners_quiet: "quiet s (addInteractiveListeners n s)"
  unfolding addInteractiveListeners_def by (intro quiet_upd) simp

lemma cursor_classes_quiet:
  "(\<And>e. el_mono e (f c e)) \<Longrightarrow> quiet s (cursor_classes f c s)"
  unfolding cursor_classes_def
  by (auto simp: Let_def split: option.splits intro!: quiet_updI)

lemma on_quiet:
  "quiet s (on_mouseenter s)" "quiet s (on_mouseleave s)"
  "quiet s (on_mousedown s)" "quiet s (on_mouseup s)"
  unfolding on_mouseenter_def on_mouseleave_def on_mousedown_def on_mouseup_def
  by (auto intro!: quiet_then [OF cursor_classes_quiet])

lemma createRippleEffect_quiet: "quiet s (createRippleEffect el x y s)"
proof (cases "prefersReducedMotion s")
  case True
  then show ?thesis by (simp add: createRippleEffect_def)
next
  case False
  then show ?thesis
    unfolding createRippleEffect_def appendChild_def Let_def
    apply (simp only: if_False)
    apply (intro quiet_setTimeoutI quiet_upd_new [where n = "length (nodes s)"] quiet_updI
        quiet_createElementI quiet_refl)
    apply (simp_all add: benign_def)
    done
qed

lemma intersection_callback_quiet: "quiet s (intersection_callback es s)"
  unfolding intersection_callback_def
  by (intro quiet_fold)
     (auto simp: Let_def intro!: quiet_then [OF classList_add_quiet] classList_add_quiet)

lemma checkElementsInViewport_quiet: "quiet s (checkElementsInViewport s)"
  unfolding checkElementsInViewport_def Let_def
  by (auto intro!: quiet_foldI classList_add_quiet)

lemma handleResize_quiet: "quiet s (handleResize s)"
  unfolding handleResize_def
  by (rule quiet_then [OF checkElementsInViewport_quiet]) simp

lemma handleThemeChange_quiet: "quiet s (handleThemeChange s)"
  unfolding handleThemeChange_def
  by (intro quiet_setTimeoutI classList_add_quiet) (simp add: benign_def)

lemma updateCursorTrail_quiet: "quiet s (updateCursorTrail x y s)"
  unfolding updateCursorTrail_def trailStep_def Let_def
  by (auto split: list.splits intro!: quiet_updI quiet_fold quiet_upd)

lemma updateCursor_quiet: "quiet s (updateCursor s)"
  unfolding updateCursor_def Let_def
  by (auto split: option.splits intro!: quiet_then [OF updateCursorTrail_quiet] quiet_updI)

lemma updateMotionBackground_quiet: "quiet s (updateMotionBackground s)"
  unfolding updateMotionBackground_def Let_def
  by (auto split: option.splits prod.splits intro!: quiet_foldI quiet_updI quiet_upd quiet_fold)

lemma animatePageTransition_quiet: "quiet s (animatePageTransition s)"
  unfolding animatePageTransition_def
  by (auto split: list.splits simp: benign_def intro!: quiet_setTimeoutI classList_add_quiet)

lemma addShimmerLoading_quiet: "quiet s (addShimmerLoading el s)"
  unfolding addShimmerLoading_def
  by (auto simp: benign_def intro!: quiet_setTimeoutI classList_add_quiet)

lemma triggerPageTransition_quiet: "quiet s (triggerPageTransition s)"
  unfolding triggerPageTransition_def
  by (auto simp: benign_def intro!: quiet_fold quiet_setTimeoutI classList_add_quiet)

lemma observeNewElements_callback_quiet: "quiet s (snd (observeNewElements_callback ns s))"
proof (induction ns arbitrary: s)
  case Nil
  show ?case by simp
next
  case (Cons n ns)
  have "quiet s (fold addInteractiveListeners (descendants sel_interactive n s) s)"
    by (intro quiet_fold addInteractiveListeners_quiet)
  with Cons.IH show ?case by (auto intro: quiet_trans)
qed

lemma dispatch_quiet: "(\<And>m u. quiet u (h m u)) \<Longrightarrow> quiet s (dispatch h n s)"
  unfolding dispatch_def by (intro quiet_fold quiet_funpow)

lemma dispatch_at_quiet: "(\<And>u. quiet u (h u)) \<Longrightarrow> quiet s (dispatch_at h n s)"
  unfolding dispatch_at_def by (auto intro!: quiet_funpow)

lemma fire_quiet: "benign t a \<Longrightarrow> quiet s (fire a s)"
  unfolding fire_def
  by (cases a)
     (auto simp: benign_def intro!: remove_node_quiet classList_add_quiet classList_remove_quiet)

lemma quiet_drop_timers:
  "set ts \<subseteq> set (timers s) \<Longrightarrow> quiet s (s\<lparr>clock := t, timers := ts\<rparr>)"
  by (auto simp: quiet_def calm_def grows_def ptr_same_def ptr_def raf_same_def io_same_def
      timers_ok_def list_all_iff benign_cong [of "s\<lparr>clock := t, timers := ts\<rparr>" s])

lemma advance_quiet:
  assumes "timers_ok s"
  shows "quiet s (advance dt s)"
proof -
  have "quiet u (case x of (d, a) \<Rightarrow> fire a u)"
    if "x \<in> set (sort_key fst (filter (\<lambda>(d, a). d \<le> clock s + dt) (timers s)))" for x u
  proof -
    obtain d a where x: "x = (d, a)" by (cases x)
    with that have "(d, a) \<in> set (timers s)" by auto
    with assms have "benign s a" by (auto simp: timers_ok_def list_all_iff)
    with x show ?thesis by (simp add: fire_quiet)
  qed
  then show ?thesis
    unfolding advance_def Let_def
    by (intro quiet_then [OF quiet_fold_on] quiet_drop_timers) auto
qed

lemma animate_calm: "calm s (animate s)"
  unfolding animate_def requestAnimationFrame_def Let_def
  by (simp add: quiet_calm quiet_trans [OF updateCursor_quiet updateMotionBackground_quiet])

lemma frame_calm: "calm s (frame s)"
  unfolding frame_def
  by (rule calm_then [OF calm_fold]) (simp_all add: animate_calm)

lemma fold_remove_node_quiet: "quiet s (fold remove_node ns s)"
  by (intro quiet_fold remove_node_quiet)

lemma tops_quiet: "quiet s t \<Longrightarrow> tops t = tops s"
  by (simp add: tops_def quiet_def calm_def grows_def)

lemma quiet_fields:
  assumes "quiet s t"
  shows "cursor t = cursor s" "cursorDot t = cursorDot s" "cursorTrail t = cursorTrail s"
    "motionBackground t = motionBackground s"
  using assms by (simp_all add: quiet_def calm_def grows_def)

text \<open>\<open>destroy\<close> in one piece: the frame is cancelled, the observer disconnected, and the
  named nodes are removed in the order cursor, dot, trail, background.\<close>

lemma destroy_alt:
  "destroy s =
     fold remove_node (tops s)
       (s\<lparr>raf_pending := cancelled s,
          intersectionObserver := map_option (\<lambda>_. []) (intersectionObserver s)\<rparr>)"
proof -
  define s1 where "s1 = (case animationFrameId s of
                  Some h \<Rightarrow> if h \<noteq> 0 then cancelAnimationFrame h s else s
                | None \<Rightarrow> s)"
  define s2 where "s2 = (case intersectionObserver s1 of
                  Some _ \<Rightarrow> s1\<lparr>intersectionObserver := Some []\<rparr>
                | None \<Rightarrow> s1)"
  define s3 where "s3 = (case cursor s2 of Some cu \<Rightarrow> remove_node cu s2 | None \<Rightarrow> s2)"
  define s4 where "s4 = (case cursorDot s3 of Some d \<Rightarrow> remove_node d s3 | None \<Rightarrow> s3)"
  define s5 where "s5 = fold remove_node (cursorTrail s4) s4"
  have d: "destroy s = (case motionBackground s5 of Some mb \<Rightarrow> remove_node mb s5 | None \<Rightarrow> s5)"
    unfolding destroy_def s1_def s2_def s3_def s4_def s5_def Let_def by (rule refl)
  have s1: "s1 = s\<lparr>raf_pending := cancelled s\<rparr>"
    by (simp add: s1_def cancelled_def cancelAnimationFrame_def split: option.splits)
  have s2: "s2 = s\<lparr>raf_pending := cancelled s,
          intersectionObserver := map_option (\<lambda>_. []) (intersectionObserver s)\<rparr>"
    by (simp add: s2_def s1 split: option.splits)
  have f2: "cursor s2 = cursor s" "cursorDot s2 = cursorDot s" "cursorTrail s2 = cursorTrail s"
    "motionBackground s2 = motionBackground s"
    by (simp_all add: s2)
  have s3: "s3 = fold remove_node (case cursor s of None \<Rightarrow> [] | Some cu \<Rightarrow> [cu]) s2"
    by (simp add: s3_def f2 split: option.splits)
  have q3: "quiet s2 s3" unfolding s3 by (rule fold_remove_node_quiet)
  have s4: "s4 = fold remove_node (case cursorDot s of None \<Rightarrow> [] | Some d \<Rightarrow> [d]) s3"
    by (simp add: s4_def quiet_fields [OF q3] f2 split: option.splits)
  have q4: "quiet s3 s4" unfolding s4 by (rule fold_remove_node_quiet)
  have s5: "s5 = fold remove_node (cursorTrail s) s4"
    by (simp add: s5_def quiet_fields [OF q4] quiet_fields [OF q3] f2)
  have q5: "quiet s4 s5" unfolding s5 by (rule fold_remove_node_quiet)
  have "destroy s = fold remove_node (case motionBackground s of None \<Rightarrow> [] | Some mb \<Rightarrow> [mb]) s5"
    by (simp add: d quiet_fields [OF q5] quiet_fields [OF q4] quiet_fields [OF q3] f2
        split: option.splits)
  then show ?thesis
    by (simp add: s5 s4 s3 s2 tops_def)
qed

lemma destroy_calm: "calm s (destroy s)"
  unfolding destroy_alt
  by (rule calm_then [OF quiet_calm [OF fold_remove_node_quiet]]) simp

lemma handleMouseMove_grows: "grows s (handleMouseMove now x y s)"
  unfolding handleMouseMove_def grows_def
  by (auto elim!: timers_ok_mono)

lemma handleMouseMove_raf: "raf_same s (handleMouseMove now x y s)"
  by (simp add: handleMouseMove_def raf_same_def)

lemma raf_same_trans: "raf_same s t \<Longrightarrow> raf_same t u \<Longrightarrow> raf_same s u"
  by (simp add: raf_same_def)

lemma quiet_raf: "quiet s t \<Longrightarrow> raf_same s t"
  by (simp add: quiet_def)

lemma host_insert_quiet: "quiet s (s\<lparr>nodes := nodes s @ [e]\<rparr>)"
  by (rule quietI) (auto simp: nth_append intro: timers_ok_mono)

lemma exec_quiet:
  assumes "timers_ok s"
    and "ev \<noteq> Frame" and "ev \<noteq> CallDestroy" and "\<And>now x y. ev \<noteq> MouseMove now x y"
  shows "quiet s (exec ev s)"
proof (cases ev)
  case (MouseDown n)
  then show ?thesis by (simp add: Let_def dispatch_quiet on_quiet)
next
  case (MouseUp n)
  then show ?thesis by (simp add: Let_def dispatch_quiet on_quiet)
next
  case (Resize w h)
  have "quiet s (handleResize (s\<lparr>innerWidth := w, innerHeight := h\<rparr>))"
    by (rule quiet_then [OF handleResize_quiet]) simp
  with Resize show ?thesis by (simp add: Let_def)
next
  case (Intersection es)
  then show ?thesis by (simp add: intersection_callback_quiet split: option.splits)
next
  case (Advance dt)
  with assms(1) show ?thesis by (simp add: advance_quiet)
qed (use assms in \<open>simp_all add: dispatch_at_quiet dispatch_quiet on_quiet createRippleEffect_quiet
      handleThemeChange_quiet observeNewElements_callback_quiet
      addShimmerLoading_quiet triggerPageTransition_quiet host_insert_quiet quiet_upd\<close>)

lemma exec_grows:
  assumes "timers_ok s"
  shows "grows s (exec ev s)"
proof (cases "ev = Frame \<or> ev = CallDestroy \<or> (\<exists>now x y. ev = MouseMove now x y)")
  case True
  then show ?thesis
    using grows_trans [OF handleMouseMove_grows quiet_grows [OF handleCardHover_quiet]]
    by (auto simp: calm_grows frame_calm destroy_calm)
next
  case False
  with assms have "quiet s (exec ev s)" by (intro exec_quiet) auto
  then show ?thesis by (rule quiet_grows)
qed

lemma exec_ptr:
  assumes "timers_ok s" and "\<And>now x y. ev \<noteq> MouseMove now x y"
  shows "ptr (exec ev s) = ptr s"
proof (cases "ev = Frame \<or> ev = CallDestroy")
  case True
  then show ?thesis
    using frame_calm [of s] destroy_calm [of s] by (auto simp: calm_def ptr_same_def)
next
  case False
  with assms have "quiet s (exec ev s)" by (intro exec_quiet) auto
  then show ?thesis by (simp add: quiet_def calm_def ptr_same_def)
qed

lemma exec_raf:
  assumes "timers_ok s" and "ev \<noteq> Frame" and "ev \<noteq> CallDestroy"
  shows "raf_same s (exec ev s)"
proof (cases "\<exists>now x y. ev = MouseMove now x y")
  case True
  then obtain now x y where "ev = MouseMove now x y" by blast
  then show ?thesis
    using raf_same_trans [OF handleMouseMove_raf quiet_raf [OF handleCardHover_quiet]]
    by (auto simp: raf_same_def)
next
  case False
  with assms have "quiet s (exec ev s)" by (intro exec_quiet) auto
  then show ?thesis by (rule quiet_raf)
qed

lemma grows_timers_ok: "grows s t \<Longrightarrow> timers_ok s \<Longrightarrow> timers_ok t"
  by (simp add: grows_def)

lemma run_Cons: "run (ev # evs) s = run evs (exec ev s)"
  by (simp add: run_def)

lemma run_append: "run (evs @ evs') s = run evs' (run evs s)"
  by (simp add: run_def)

lemma run_grows: "timers_ok s \<Longrightarrow> grows s (run evs s)"
proof (induction evs arbitrary: s)
  case Nil
  show ?case by (simp add: run_def)
next
  case (Cons ev evs)
  have g: "grows s (exec ev s)" by (rule exec_grows) (rule Cons.prems)
  then have "timers_ok (exec ev s)" using Cons.prems by (rule grows_timers_ok)
  then have "grows (exec ev s) (run evs (exec ev s))" by (rule Cons.IH)
  with g show ?case by (auto simp: run_Cons intro: grows_trans)
qed

subsection \<open>The frame handle\<close>

lemma animate_raf:
  "raf_pending (animate s) = raf_pending s @ [Suc (raf_counter s)]"
  "animationFrameId (animate s) = Some (Suc (raf_counter s))"
  "raf_counter (animate s) = Suc (raf_counter s)"
  using quiet_trans [OF updateCursor_quiet updateMotionBackground_quiet, of s]
  by (simp_all add: animate_def requestAnimationFrame_def Let_def quiet_def raf_same_def)

lemma frame_raf_ok: "raf_ok s \<Longrightarrow> raf_ok (frame s)"
  by (auto simp: raf_ok_def frame_def animate_raf split: option.splits)

lemma destroy_raf:
  "raf_pending (destroy s) = cancelled s" "animationFrameId (destroy s) = animationFrameId s"
  using fold_remove_node_quiet [of "s\<lparr>raf_pending := cancelled s,
          intersectionObserver := map_option (\<lambda>_. []) (intersectionObserver s)\<rparr>" "tops s"]
  by (simp_all add: destroy_alt quiet_def raf_same_def)

lemma destroy_cancels: "raf_ok s \<Longrightarrow> raf_pending (destroy s) = []"
  by (auto simp: destroy_raf cancelled_def raf_ok_def split: option.splits)

lemma exec_raf_ok:
  assumes "timers_ok s" and "raf_ok s"
  shows "raf_ok (exec ev s)"
proof (cases "ev = Frame \<or> ev = CallDestroy")
  case True
  then show ?thesis
    using assms(2) frame_raf_ok [of s] destroy_cancels [of s] destroy_raf(2) [of s]
    by (auto simp: raf_ok_def split: option.splits)
next
  case False
  with assms(1) have "raf_same s (exec ev s)" by (intro exec_raf) auto
  with assms(2) show ?thesis by (auto simp: raf_ok_def raf_same_def split: option.splits)
qed

lemma run_raf_ok: "timers_ok s \<Longrightarrow> raf_ok s \<Longrightarrow> raf_ok (run evs s)"
proof (induction evs arbitrary: s)
  case Nil
  then show ?case by (simp add: run_def)
next
  case (Cons ev evs)
  have "timers_ok (exec ev s)"
    using exec_grows [OF Cons.prems(1)] Cons.prems(1) by (rule grows_timers_ok)
  moreover have "raf_ok (exec ev s)" using Cons.prems by (rule exec_raf_ok)
  ultimately show ?case by (simp add: run_Cons Cons.IH)
qed

section \<open>What the constructor builds\<close>

lemmas el_defs = div_el_def cursor_el_def trail_el_def blank_def

lemma mkLayer_eq:
  "mkLayer mb i s = s\<lparr>nodes := nodes s @ [div_el [''layer'', layer_class i] ''absolute'' mb],
                       layers := layers s @ [length (nodes s)]\<rparr>"
  by (simp add: mkLayer_def Let_def upd_alt createElement_def appendChild_def el_defs)

lemma mkParticle_eq:
  "mkParticle pc i s = s\<lparr>nodes := nodes s @ [div_el [''particle''] ''absolute'' pc],
                       particles := particles s @ [length (nodes s)]\<rparr>"
  by (simp add: mkParticle_def Let_def upd_alt createElement_def appendChild_def el_defs)

lemma mkShape_eq:
  "mkShape ic i s = s\<lparr>nodes := nodes s @ [div_el [''floating-shape''] ''absolute'' ic],
       floatingShapes := Some ((case floatingShapes s of None \<Rightarrow> [] | Some fs \<Rightarrow> fs)
                               @ [length (nodes s)])\<rparr>"
  by (simp add: mkShape_def Let_def upd_alt createElement_def appendChild_def el_defs)

lemma mkTrailDot_eq:
  "mkTrailDot i s = s\<lparr>nodes := nodes s @ [trail_el (body s)],
                       cursorTrail := cursorTrail s @ [length (nodes s)]\<rparr>"
  by (simp add: mkTrailDot_def Let_def upd_alt createElement_def appendChild_def el_defs)

lemma fold_mkLayer:
  "fold (mkLayer mb) is s =
     s\<lparr>nodes := nodes s @ map (\<lambda>i. div_el [''layer'', layer_class i] ''absolute'' mb) is,
       layers := layers s @ [length (nodes s)..<length (nodes s) + length is]\<rparr>"
proof (induction "is" arbitrary: s)
  case Nil
  show ?case by simp
next
  case (Cons i "is")
  show ?case
    apply (simp only: fold_simps comp_apply Cons.IH)
    apply (simp add: mkLayer_eq upt_conv_Cons del: upt_Suc)
    done
qed

lemma fold_mkParticle:
  "fold (mkParticle pc) is s =
     s\<lparr>nodes := nodes s @ replicate (length is) (div_el [''particle''] ''absolute'' pc),
       particles := particles s @ [length (nodes s)..<length (nodes s) + length is]\<rparr>"
proof (induction "is" arbitrary: s)
  case Nil
  show ?case by simp
next
  case (Cons i "is")
  show ?case
    apply (simp only: fold_simps comp_apply Cons.IH)
    apply (simp add: mkParticle_eq upt_conv_Cons replicate_app_Cons_same del: upt_Suc)
    done
qed

lemma fold_mkShape:
  "fold (mkShape ic) is s =
     (if is = [] then s else
      s\<lparr>nodes := nodes s @ replicate (length is) (div_el [''floating-shape''] ''absolute'' ic),
        floatingShapes := Some ((case floatingShapes s of None \<Rightarrow> [] | Some fs \<Rightarrow> fs)
           @ [length (nodes s)..<length (nodes s) + length is])\<rparr>)"
proof (induction "is" arbitrary: s)
  case Nil
  show ?case by simp
next
  case (Cons i "is")
  show ?case
    apply (simp only: fold_simps comp_apply Cons.IH)
    apply (simp add: mkShape_eq upt_conv_Cons replicate_app_Cons_same del: upt_Suc)
    done
qed

lemma fold_mkTrailDot:
  "fold mkTrailDot is s =
     s\<lparr>nodes := nodes s @ replicate (length is) (trail_el (body s)),
       cursorTrail := cursorTrail s @ [length (nodes s)..<length (nodes s) + length is]\<rparr>"
proof (induction "is" arbitrary: s)
  case Nil
  show ?case by simp
next
  case (Cons i "is")
  show ?case
    apply (simp only: fold_simps comp_apply Cons.IH)
    apply (simp add: mkTrailDot_eq upt_conv_Cons replicate_app_Cons_same del: upt_Suc)
    done
qed

lemma createMotionBackground_eq:
  "\<not> prefersReducedMotion s \<Longrightarrow>
   createMotionBackground s =
     s\<lparr>nodes := nodes s @ bg_nodes (length (nodes s)) (body s),
       motionBackground := Some (length (nodes s)),
       gridElement := Some (length (nodes s) + 1),
       layers := layers s @ [length (nodes s) + 2..<length (nodes s) + 6],
       particles := particles s @ [length (nodes s) + 7..<length (nodes s) + 27],
       floatingShapes := Some ((case floatingShapes s of None \<Rightarrow> [] | Some fs \<Rightarrow> fs)
          @ [length (nodes s) + 28..<length (nodes s) + 53])\<rparr>"
  by (rule state.equality)
     (simp_all add: createMotionBackground_def Let_def upd_alt createElement_def appendChild_def
       fold_mkLayer fold_mkParticle fold_mkShape bg_nodes_def el_defs nth_append add.commute
       del: upt_Suc)

lemma length_bg_nodes [simp]: "length (bg_nodes lo b) = 53"
  by (simp add: bg_nodes_def)

lemma length_cc_nodes [simp]: "length (cc_nodes b k) = k + 2"
  by (simp add: cc_nodes_def)

lemma createCustomCursor_eq:
  "\<not> prefersReducedMotion s \<Longrightarrow>
   createCustomCursor s =
     setupInteractiveElements
       (s\<lparr>nodes := nodes s @ cc_nodes (body s) (maxTrailLength s),
          cursor := Some (length (nodes s)),
          cursorDot := Some (length (nodes s) + 1),
          cursorTrail := cursorTrail s
            @ [length (nodes s) + 2..<length (nodes s) + 2 + maxTrailLength s]\<rparr>)"
  apply (simp only: createCustomCursor_def Let_def if_False)
  apply (rule arg_cong [where f = setupInteractiveElements])
  apply (rule state.equality)
  apply (simp_all add: upd_alt createElement_def appendChild_def
       fold_mkTrailDot cc_nodes_def el_defs nth_append list_update_append add.commute
       del: upt_Suc)
  done

lemma builders_eq:
  "\<not> prefersReducedMotion s \<Longrightarrow>
   createCustomCursor (createMotionBackground s) = setupInteractiveElements (built s)"
  apply (simp add: createMotionBackground_eq createCustomCursor_eq)
  apply (rule arg_cong [where f = setupInteractiveElements])
  apply (rule state.equality)
  apply (simp_all add: built_def add.commute)
  done

lemma createMotionBackground_reduced:
  "prefersReducedMotion s \<Longrightarrow> createMotionBackground s = s"
  by (simp add: createMotionBackground_def)

lemma createCustomCursor_reduced:
  "prefersReducedMotion s \<Longrightarrow> createCustomCursor s = s"
  by (simp add: createCustomCursor_def)

lemma init_alt:
  "init s = init_tail (if prefersReducedMotion s then s else setupInteractiveElements (built s))"
  by (simp add: init_def init_tail_def Let_def builders_eq createMotionBackground_reduced
      createCustomCursor_reduced)

section \<open>Every reachable state\<close>

lemma quiet_field2 [simp]:
  "quiet s (t\<lparr>mo_observing := b\<rparr>) = quiet s t"
  by (simp add: quiet_def calm_def grows_def raf_same_def io_same_def ptr_same_def ptr_def
      timers_ok_cong [of "t\<lparr>mo_observing := b\<rparr>" t])

lemma quiet_listening: "quiet s t \<Longrightarrow> quiet s (t\<lparr>listening := True\<rparr>)"
  by (simp add: quiet_def calm_def grows_def raf_same_def io_same_def ptr_same_def ptr_def
      timers_ok_cong [of "t\<lparr>listening := True\<rparr>" t])

lemma setupInteractiveElements_quiet: "quiet s (setupInteractiveElements s)"
  unfolding setupInteractiveElements_def Let_def
  by (simp add: quiet_fold addInteractiveListeners_quiet)

lemma semi_refl [simp]: "semi s s"
  by (simp add: semi_def raf_same_def)

lemma semi_trans: "semi s t \<Longrightarrow> semi t u \<Longrightarrow> semi s u"
  by (auto simp: semi_def raf_same_def intro: calm_trans)

lemma quiet_semi: "quiet s t \<Longrightarrow> semi s t"
  by (simp add: quiet_def semi_def)

lemma semi_calm: "semi s t \<Longrightarrow> calm s t"
  by (simp add: semi_def)

lemma semi_fold: "(\<And>x u. semi u (f x u)) \<Longrightarrow> semi s (fold f xs s)"
proof (induction xs arbitrary: s)
  case Nil
  show ?case by simp
next
  case (Cons x xs)
  have "semi s (f x s)" by (rule Cons.prems)
  moreover have "semi (f x s) (fold f xs (f x s))" by (rule Cons.IH) (rule Cons.prems)
  ultimately show ?case by (auto intro: semi_trans)
qed

lemma semi_field [simp]:
  "semi s (t\<lparr>intersectionObserver := io\<rparr>) = semi s t"
  "semi s (t\<lparr>animatedElements := ns\<rparr>) = semi s t"
  "semi s (t\<lparr>staggerGroups := ns\<rparr>) = semi s t"
  by (simp_all add: semi_def calm_def grows_def raf_same_def ptr_same_def ptr_def
      timers_ok_cong [of "t\<lparr>intersectionObserver := io\<rparr>" t]
      timers_ok_cong [of "t\<lparr>animatedElements := ns\<rparr>" t]
      timers_ok_cong [of "t\<lparr>staggerGroups := ns\<rparr>" t])

lemma io_observe_semi: "semi s (io_observe el s)"
  by (simp add: io_observe_def split: option.splits)

lemma setupScrollAnimations_semi: "semi s (setupScrollAnimations s)"
  unfolding setupScrollAnimations_def Let_def
  by (intro semi_trans [OF _ semi_fold] io_observe_semi) simp

lemma setupEventListeners_quiet: "quiet s (setupEventListeners s)"
  by (simp add: setupEventListeners_def quiet_listening)

lemma init_tail_calm: "calm s (init_tail s)"
proof -
  have "semi s (setupEventListeners (setupScrollAnimations s))"
    by (rule semi_trans [OF setupScrollAnimations_semi quiet_semi [OF setupEventListeners_quiet]])
  then have "calm s (startAnimationLoop (setupEventListeners (setupScrollAnimations s)))"
    unfolding startAnimationLoop_def by (auto intro: calm_trans semi_calm animate_calm)
  then show ?thesis
    unfolding init_tail_def
    by (rule calm_trans) (rule quiet_calm [OF animatePageTransition_quiet])
qed

lemma new_alt:
  "new_MotionEffects e =
     init_tail (if reduced_motion e then start e else setupInteractiveElements (start e))"
  by (simp add: new_MotionEffects_def init_alt start_def constructor_fields_def)

lemma start_calm: "calm (start e) (new_MotionEffects e)"
  unfolding new_alt
  by (auto intro: calm_trans [OF quiet_calm [OF setupInteractiveElements_quiet] init_tail_calm]
      init_tail_calm)

lemma start_fields:
  "timers (start e) = []" "raf_pending (start e) = []" "animationFrameId (start e) = None"
  "raf_counter (start e) = raf0 e" "mouseMoveThrottle (start e) = 8"
  "prefersReducedMotion (start e) = reduced_motion e" "body (start e) = doc_body e"
  "ptr (start e) = (0, 0, 0, 0, 0, 0, 0)" "maxTrailLength (start e) = 8"
  by (simp_all add: start_def built_def constructor_fields_def ptr_def)

lemma timers_ok_start: "timers_ok (start e)"
  by (simp add: timers_ok_def start_fields)

lemma timers_ok_new: "timers_ok (new_MotionEffects e)"
  using start_calm [of e] timers_ok_start [of e] by (simp add: calm_def grows_def)

lemma listening_init_tail: "listening (init_tail s)"
proof -
  have l: "listening (setupEventListeners (setupScrollAnimations s))"
    by (simp add: setupEventListeners_def)
  have "calm (setupEventListeners (setupScrollAnimations s)) (init_tail s)"
    unfolding init_tail_def startAnimationLoop_def
    by (rule calm_trans [OF animate_calm quiet_calm [OF animatePageTransition_quiet]])
  with l show ?thesis by (simp add: calm_def grows_def)
qed

lemma listening_new: "listening (new_MotionEffects e)"
  by (simp only: new_alt listening_init_tail)

lemma raf_init_tail:
  "raf_pending (init_tail s) = raf_pending s @ [Suc (raf_counter s)]"
  "animationFrameId (init_tail s) = Some (Suc (raf_counter s))"
proof -
  define t where "t = setupEventListeners (setupScrollAnimations s)"
  have "semi s t"
    unfolding t_def
    by (rule semi_trans [OF setupScrollAnimations_semi quiet_semi [OF setupEventListeners_quiet]])
  then have r: "raf_pending t = raf_pending s" "raf_counter t = raf_counter s"
    by (simp_all add: semi_def raf_same_def)
  have "raf_same (animate t) (init_tail s)"
    unfolding init_tail_def startAnimationLoop_def t_def
    by (rule quiet_raf [OF animatePageTransition_quiet])
  then show "raf_pending (init_tail s) = raf_pending s @ [Suc (raf_counter s)]"
    "animationFrameId (init_tail s) = Some (Suc (raf_counter s))"
    by (simp_all add: raf_same_def animate_raf r)
qed

lemma raf_new:
  "raf_pending (new_MotionEffects e) = [Suc (raf0 e)]"
  "animationFrameId (new_MotionEffects e) = Some (Suc (raf0 e))"
proof -
  have "raf_same (start e) (if reduced_motion e then start e else setupInteractiveElements (start e))"
    using quiet_raf [OF setupInteractiveElements_quiet, of "start e"]
    by (simp add: raf_same_def)
  then show "raf_pending (new_MotionEffects e) = [Suc (raf0 e)]"
    "animationFrameId (new_MotionEffects e) = Some (Suc (raf0 e))"
    by (simp_all only: new_alt raf_init_tail raf_same_def start_fields append_Nil)
qed

lemma raf_ok_new: "raf_ok (new_MotionEffects e)"
  by (simp add: raf_ok_def raf_new)

lemma ptr_new: "ptr (new_MotionEffects e) = (0, 0, 0, 0, 0, 0, 0)"
  using start_calm [of e] by (simp add: calm_def ptr_same_def start_fields)

text \<open>The facts that hold in every state a constructed component can reach.\<close>

lemma reach:
  fixes e evs
  defines "s \<equiv> run evs (new_MotionEffects e)"
  shows "grows (start e) s" and "grows (new_MotionEffects e) s"
    and "timers_ok s" and "raf_ok s" and "listening s"
    and "mouseMoveThrottle s = 8" and "prefersReducedMotion s = reduced_motion e"
    and "body s = doc_body e"
proof -
  show g: "grows (new_MotionEffects e) s"
    unfolding s_def by (rule run_grows [OF timers_ok_new])
  show g0: "grows (start e) s"
    by (rule grows_trans [OF calm_grows [OF start_calm] g])
  show "timers_ok s" using g timers_ok_new by (rule grows_timers_ok)
  show "raf_ok s" unfolding s_def by (rule run_raf_ok [OF timers_ok_new raf_ok_new])
  show "listening s" using g listening_new by (simp add: grows_def)
  show "mouseMoveThrottle s = 8" "prefersReducedMotion s = reduced_motion e"
    "body s = doc_body e"
    using g0 by (simp_all add: grows_def start_fields)
qed

section \<open>Pointer moves are throttled\<close>

lemma move_ptr:
  "listening s \<Longrightarrow> ptr (exec (MouseMove now x y) s) = ptr (handleMouseMove now x y s)"
  using handleCardHover_quiet [of "handleMouseMove now x y s" x y]
  by (simp add: quiet_def calm_def ptr_same_def)

lemma move_rejected:
  "now - lastMouseMoveTime s < mouseMoveThrottle s \<Longrightarrow> handleMouseMove now x y s = s"
  by (simp add: handleMouseMove_def)

lemma move_accepted:
  "\<not> now - lastMouseMoveTime s < mouseMoveThrottle s \<Longrightarrow>
   ptr (handleMouseMove now x y s) = (x, y, x, y, x - lastMouseX s, y - lastMouseY s, now)"
  by (simp add: handleMouseMove_def ptr_def)

lemma move_keeps:
  assumes "timers_ok s" and "listening s"
  shows "timers_ok (exec (MouseMove now x y) s)"
    and "listening (exec (MouseMove now x y) s)"
    and "mouseMoveThrottle (exec (MouseMove now x y) s) = mouseMoveThrottle s"
  using exec_grows [OF assms(1), of "MouseMove now x y"] assms
  by (simp_all add: grows_def del: exec.simps)

lemma accepted_spaced:
  assumes "timers_ok s" and "listening s" and "mouseMoveThrottle s = 8"
  shows "sorted_wrt (\<lambda>a b. 8 \<le> b - a) (accepted ms s) \<and>
         list_all (\<lambda>u. 8 \<le> u - lastMouseMoveTime s) (accepted ms s)"
  using assms
proof (induction ms arbitrary: s)
  case Nil
  show ?case by simp
next
  case (Cons m ms)
  obtain now x y where m: "m = (now, x, y)" by (cases m)
  define s' where "s' = exec (MouseMove now x y) s"
  have keep: "timers_ok s'" "listening s'" "mouseMoveThrottle s' = 8"
    unfolding s'_def using move_keeps [OF Cons.prems(1,2)] Cons.prems(3) by simp_all
  then have IH: "sorted_wrt (\<lambda>a b. 8 \<le> b - a) (accepted ms s')"
    "list_all (\<lambda>u. 8 \<le> u - lastMouseMoveTime s') (accepted ms s')"
    using Cons.IH [of s'] by simp_all
  have p: "ptr s' = ptr (handleMouseMove now x y s)"
    unfolding s'_def by (rule move_ptr [OF Cons.prems(2)])
  show ?case
  proof (cases "now - lastMouseMoveTime s < 8")
    case True
    then have "lastMouseMoveTime s' = lastMouseMoveTime s"
      using p Cons.prems(3) by (simp add: move_rejected ptr_def)
    with IH True show ?thesis
      by (simp add: m Cons.prems(3) s'_def del: exec.simps)
  next
    case False
    then have l: "lastMouseMoveTime s' = now"
      using p Cons.prems(3) move_accepted [of now s x y] by (simp add: ptr_def)
    have "list_all (\<lambda>u. 8 \<le> u - lastMouseMoveTime s) (accepted ms s')"
      using IH(2) False unfolding l list_all_iff by auto
    with IH False l show ?thesis
      by (simp add: m Cons.prems(3) s'_def [symmetric] list_all_iff del: exec.simps)
  qed
qed

text \<open>
  C7. In every state a constructed component can reach: a pointer move that the handler
  sees less than 8 ms after the last accepted one leaves raw position, last position,
  velocity and the time of the last update as they were; a move at least 8 ms after it
  sets all of them from the event; and in any sequence of pointer moves the accepted ones
  are pairwise at least 8 ms apart, the first of them at least 8 ms after the last update
  before the sequence.
\<close>

theorem pointer_moves_are_throttled:
  fixes e evs now x y ms
  defines "s \<equiv> run evs (new_MotionEffects e)"
  shows "(if now - lastMouseMoveTime s < 8
          then ptr (exec (MouseMove now x y) s) = ptr s
          else ptr (exec (MouseMove now x y) s)
                 = (x, y, x, y, x - lastMouseX s, y - lastMouseY s, now))
         \<and> sorted_wrt (\<lambda>a b. 8 \<le> b - a) (accepted ms s)
         \<and> list_all (\<lambda>u. 8 \<le> u - lastMouseMoveTime s) (accepted ms s)"
proof -
  have r: "timers_ok s" "listening s" "mouseMoveThrottle s = 8"
    unfolding s_def by (rule reach)+
  have "ptr (exec (MouseMove now x y) s) = ptr (handleMouseMove now x y s)"
    by (rule move_ptr [OF r(2)])
  then have "if now - lastMouseMoveTime s < 8
          then ptr (exec (MouseMove now x y) s) = ptr s
          else ptr (exec (MouseMove now x y) s)
                 = (x, y, x, y, x - lastMouseX s, y - lastMouseY s, now)"
    using r(3) move_rejected [of now s x y] move_accepted [of now s x y] by simp
  with accepted_spaced [OF r] show ?thesis by simp
qed

theorem pointer_moves_are_throttled_witness:
  "accepted [(1000, 5, 5), (1003, 6, 6), (1008, 7, 7), (1015, 9, 9), (1016, 9, 9)]
     (new_MotionEffects page_reduced) = [1000, 1008, 1016]
   \<and> sorted_wrt (\<lambda>a b. 8 \<le> b - a)
       (accepted [(1000, 5, 5), (1003, 6, 6), (1008, 7, 7), (1015, 9, 9), (1016, 9, 9)]
          (run [] (new_MotionEffects page_reduced)))"
proof -
  have "accepted [(1000, 5, 5), (1003, 6, 6), (1008, 7, 7), (1015, 9, 9), (1016, 9, 9)]
     (new_MotionEffects page_reduced) = [1000, 1008, 1016]"
    by code_simp
  with pointer_moves_are_throttled [where evs = "[]" and e = page_reduced
      and ms = "[(1000, 5, 5), (1003, 6, 6), (1008, 7, 7), (1015, 9, 9), (1016, 9, 9)]"]
  show ?thesis by simp
qed

section \<open>Visible stays visible\<close>

text \<open>
  C8. In every state a constructed component can reach, a node that carries the class
  \<open>visible\<close> still exists and still carries it after any further sequence of events:
  observer callbacks, resizes, frames, timers, pointer events, the public methods and
  teardown.
\<close>

theorem visible_is_never_removed:
  fixes e evs evs' n
  defines "s \<equiv> run evs (new_MotionEffects e)"
  assumes "n < length (nodes s)" and "has_class ''visible'' (nodes s ! n)"
  shows "n < length (nodes (run evs' s)) \<and> has_class ''visible'' (nodes (run evs' s) ! n)"
proof -
  have "timers_ok s" unfolding s_def by (rule reach)
  then have "grows s (run evs' s)" by (rule run_grows)
  with assms(2,3) show ?thesis
    by (auto simp: grows_def el_mono_def)
qed

theorem visible_is_never_removed_witness:
  "has_class ''visible''
     (nodes (run [Frame, MouseEnter 1, MouseLeave 1, CallAddShimmerLoading 1, ThemeChange,
                  Advance 5000, Intersection [(1, False)], CallTriggerPageTransition,
                  CallDestroy]
              (run [Intersection [(1, True)]] (new_MotionEffects page_reduced))) ! 1)"
proof -
  have "1 < length (nodes (run [Intersection [(1, True)]] (new_MotionEffects page_reduced)))"
    by code_simp
  moreover have "has_class ''visible''
      (nodes (run [Intersection [(1, True)]] (new_MotionEffects page_reduced)) ! 1)"
    by code_simp
  ultimately show ?thesis
    using visible_is_never_removed [where n = 1 and evs = "[Intersection [(1, True)]]"
        and e = page_reduced] by blast
qed

section \<open>What \<open>init\<close> does to the nodes of the host\<close>

lemma el_cos_refl [simp]: "el_cos e e"
  by (simp add: el_cos_def)

lemma el_cos_trans: "el_cos a b \<Longrightarrow> el_cos b c \<Longrightarrow> el_cos a c"
  by (simp add: el_cos_def)

lemma cosmetic_refl [simp]: "cosmetic s s"
  by (simp add: cosmetic_def)

lemma cosmetic_trans: "cosmetic s t \<Longrightarrow> cosmetic t u \<Longrightarrow> cosmetic s u"
  unfolding cosmetic_def by (auto intro: el_cos_trans)

lemma cosmetic_then: "cosmetic t u \<Longrightarrow> cosmetic s t \<Longrightarrow> cosmetic s u"
  by (rule cosmetic_trans)

lemma cosmetic_upd: "(\<And>e. el_cos e (f e)) \<Longrightarrow> cosmetic s (upd n f s)"
  by (auto simp: cosmetic_def upd_def nth_list_update)

lemma cosmetic_nodes: "nodes t = nodes s \<Longrightarrow> cosmetic s t"
  by (simp add: cosmetic_def)

lemma cosmetic_fold: "(\<And>x u. cosmetic u (f x u)) \<Longrightarrow> cosmetic s (fold f xs s)"
proof (induction xs arbitrary: s)
  case Nil
  show ?case by simp
next
  case (Cons x xs)
  have "cosmetic s (f x s)" by (rule Cons.prems)
  moreover have "cosmetic (f x s) (fold f xs (f x s))" by (rule Cons.IH) (rule Cons.prems)
  ultimately show ?case by (auto intro: cosmetic_trans)
qed

lemmas cosmetic_updI = cosmetic_then [OF cosmetic_upd]
lemmas cosmetic_foldI = cosmetic_then [OF cosmetic_fold]

lemma el_cos_simps [simp]:
  "el_cos e (cl_add c e)"
  "el_cos e (e\<lparr>st_transform := t\<rparr>)"
  by (simp_all add: el_cos_def cl_add_def)

lemma updateCursorTrail_cosmetic: "cosmetic s (updateCursorTrail x y s)"
  unfolding updateCursorTrail_def trailStep_def Let_def
  by (auto split: list.splits intro!: cosmetic_updI cosmetic_fold cosmetic_upd)

lemma updateCursor_cosmetic: "cosmetic s (updateCursor s)"
  unfolding updateCursor_def Let_def
  by (auto split: option.splits
      intro!: cosmetic_then [OF updateCursorTrail_cosmetic] cosmetic_updI)

lemma updateMotionBackground_cosmetic: "cosmetic s (updateMotionBackground s)"
  unfolding updateMotionBackground_def Let_def
  by (auto split: option.splits prod.splits
      intro!: cosmetic_foldI cosmetic_updI cosmetic_upd cosmetic_fold)

lemma animate_cosmetic: "cosmetic s (animate s)"
proof -
  have "cosmetic s (updateMotionBackground (updateCursor s))"
    by (rule cosmetic_trans [OF updateCursor_cosmetic updateMotionBackground_cosmetic])
  then show ?thesis
    by (simp add: animate_def requestAnimationFrame_def Let_def cosmetic_def)
qed

lemma animatePageTransition_cosmetic: "cosmetic s (animatePageTransition s)"
  unfolding animatePageTransition_def classList_add_def
  by (auto split: list.splits simp: cosmetic_def upd_def nth_list_update)

lemma nodes_io_observe [simp]: "nodes (io_observe el s) = nodes s"
  by (simp add: io_observe_def split: option.splits)

lemma nodes_fold_io_observe [simp]: "nodes (fold io_observe els s) = nodes s"
  by (induction els arbitrary: s) simp_all

lemma nodes_setupScrollAnimations [simp]: "nodes (setupScrollAnimations s) = nodes s"
  by (simp add: setupScrollAnimations_def Let_def)

lemma init_tail_cosmetic: "cosmetic s (init_tail s)"
proof -
  have "cosmetic s (setupEventListeners (setupScrollAnimations s))"
    by (rule cosmetic_nodes) (simp add: setupEventListeners_def)
  then have "cosmetic s (animate (setupEventListeners (setupScrollAnimations s)))"
    by (rule cosmetic_trans) (rule animate_cosmetic)
  then show ?thesis
    unfolding init_tail_def startAnimationLoop_def
    by (rule cosmetic_trans) (rule animatePageTransition_cosmetic)
qed

subsection \<open>Wiring\<close>

lemma nodes_fold_wire:
  "distinct ns \<Longrightarrow>
   nodes (fold addInteractiveListeners ns s) ! n =
     (if n \<in> set ns \<and> n < length (nodes s)
      then (nodes s ! n)\<lparr>wired := Suc (wired (nodes s ! n))\<rparr> else nodes s ! n)"
proof (induction ns arbitrary: s)
  case Nil
  show ?case by simp
next
  case (Cons m ns)
  then show ?case
    by (auto simp: addInteractiveListeners_def nth_nodes_upd)
qed

lemma length_fold_wire [simp]:
  "length (nodes (fold addInteractiveListeners ns s)) = length (nodes s)"
  by (induction ns arbitrary: s) (simp_all add: addInteractiveListeners_def)

lemma distinct_querySelectorAll [simp]: "distinct (querySelectorAll sel s)"
  by (simp add: querySelectorAll_def)

lemma set_querySelectorAll:
  "n \<in> set (querySelectorAll sel s) \<longleftrightarrow>
     n < length (nodes s) \<and> isConnected s n \<and> sel (nodes s ! n)"
  by (auto simp: querySelectorAll_def)

lemma nodes_setupInteractiveElements:
  "nodes (setupInteractiveElements s) ! n =
     (if n < length (nodes s) \<and> isConnected s n \<and> sel_interactive (nodes s ! n)
      then (nodes s ! n)\<lparr>wired := Suc (wired (nodes s ! n))\<rparr> else nodes s ! n)"
  by (auto simp: setupInteractiveElements_def Let_def nodes_fold_wire set_querySelectorAll)

lemma length_setupInteractiveElements [simp]:
  "length (nodes (setupInteractiveElements s)) = length (nodes s)"
  by (simp add: setupInteractiveElements_def Let_def)

subsection \<open>The constructed state\<close>

lemma nodes_start:
  "nodes (start e) =
     (if reduced_motion e then doc e
      else doc e @ bg_nodes (length (doc e)) (doc_body e) @ cc_nodes (doc_body e) 8)"
  by (simp add: start_def built_def constructor_fields_def)

lemma length_start:
  "length (nodes (start e)) = (if reduced_motion e then length (doc e) else length (doc e) + 63)"
  by (simp add: nodes_start)

lemma nth_start_host: "n < length (doc e) \<Longrightarrow> nodes (start e) ! n = doc e ! n"
  by (simp add: nodes_start nth_append)

lemma length_new: "length (nodes (new_MotionEffects e)) = length (nodes (start e))"
  using init_tail_cosmetic [of "if reduced_motion e then start e else setupInteractiveElements (start e)"]
  by (simp add: new_alt cosmetic_def split: if_splits)

text \<open>A node of the constructed state against the same node after the builders: only the
  class list and the transform may differ, and the listener count is one more where
  \<open>setupInteractiveElements\<close> found the node.\<close>

lemma new_node:
  assumes "n < length (nodes (start e))"
  shows "el_cos
     ((nodes (start e) ! n)\<lparr>wired := wired (nodes (start e) ! n) +
          (if \<not> reduced_motion e \<and> isConnected (start e) n \<and> sel_interactive (nodes (start e) ! n)
           then 1 else 0)\<rparr>)
     (nodes (new_MotionEffects e) ! n)"
proof (cases "reduced_motion e")
  case True
  with assms init_tail_cosmetic [of "start e"] show ?thesis
    by (simp add: new_alt cosmetic_def)
next
  case False
  with assms init_tail_cosmetic [of "setupInteractiveElements (start e)"] show ?thesis
    by (auto simp: new_alt cosmetic_def nodes_setupInteractiveElements)
qed

section \<open>Teardown\<close>

lemma bg_tail_parents:
  "x \<in> set (tl (bg_nodes lo b)) \<Longrightarrow> parent x \<in> {Some lo, Some (lo + 6), Some (lo + 27)}"
  by (auto simp: bg_nodes_def div_el_def)

lemma bg_head_parent: "parent (bg_nodes lo b ! 0) = Some b"
  by (simp add: bg_nodes_def div_el_def)

lemma cc_parents: "x \<in> set (cc_nodes b k) \<Longrightarrow> parent x = Some b"
  by (auto simp: cc_nodes_def cursor_el_def trail_el_def div_el_def)

lemma tops_start:
  "\<not> reduced_motion e \<Longrightarrow>
   set (tops (start e)) = insert (length (doc e)) {length (doc e) + 53..<length (doc e) + 63}"
  by (auto simp: tops_def start_def built_def constructor_fields_def)

lemma owned_start: "owned (length (doc e)) (length (nodes (start e))) (start e)"
proof (cases "reduced_motion e")
  case True
  then have "length (nodes (start e)) = length (doc e)" by (simp add: length_start)
  then show ?thesis unfolding owned_def by auto
next
  case False
  define lo where "lo = length (doc e)"
  have F: "case parent (nodes (start e) ! n) of None \<Rightarrow> True
        | Some p \<Rightarrow> (lo \<le> p \<and> p < lo + 63) \<or> (p = body (start e) \<and> n \<in> set (tops (start e)))"
    if n: "lo \<le> n" "n < lo + 63" for n
  proof -
    define k where "k = n - lo"
    have nk: "n = lo + k" "k < 63" using n by (simp_all add: k_def)
    have nd: "nodes (start e) ! n = (bg_nodes lo (doc_body e) @ cc_nodes (doc_body e) 8) ! k"
      using False by (simp add: nodes_start nk nth_append lo_def)
    show ?thesis
    proof (cases "k = 0")
      case True
      then have "parent (nodes (start e) ! n) = Some (doc_body e)"
        using nd bg_head_parent [of lo "doc_body e"] by (simp add: nth_append)
      moreover have "n \<in> set (tops (start e))"
        using False True nk by (simp add: tops_start lo_def)
      ultimately show ?thesis by (simp add: start_fields)
    next
      case k0: False
      show ?thesis
      proof (cases "k < 53")
        case True
        then have "nodes (start e) ! n = tl (bg_nodes lo (doc_body e)) ! (k - 1)"
          using k0 nd by (simp add: nth_append nth_tl)
        moreover have "tl (bg_nodes lo (doc_body e)) ! (k - 1) \<in> set (tl (bg_nodes lo (doc_body e)))"
          using True k0 by (intro nth_mem) simp
        ultimately show ?thesis
          using bg_tail_parents [of "nodes (start e) ! n" lo "doc_body e"] by auto
      next
        case k53: False
        then have "nodes (start e) ! n = cc_nodes (doc_body e) 8 ! (k - 53)"
          using nd by (simp add: nth_append)
        moreover have "cc_nodes (doc_body e) 8 ! (k - 53) \<in> set (cc_nodes (doc_body e) 8)"
          using k53 nk by (intro nth_mem) simp
        ultimately have "parent (nodes (start e) ! n) = Some (doc_body e)"
          using cc_parents by simp
        moreover have "n \<in> set (tops (start e))"
          using False k53 nk by (simp add: tops_start lo_def)
        ultimately show ?thesis by (simp add: start_fields)
      qed
    qed
  qed
  have l: "length (nodes (start e)) = lo + 63"
    using False by (simp add: length_start lo_def)
  show ?thesis
    unfolding owned_def l lo_def [symmetric] using F by blast
qed

lemma tops_grows: "grows s t \<Longrightarrow> tops t = tops s"
  by (simp add: tops_def grows_def)

lemma owned_grows:
  assumes "owned lo hi s" and "grows s t" and "hi \<le> length (nodes s)"
  shows "owned lo hi t"
  unfolding owned_def
proof (intro allI impI)
  fix n
  assume n: "lo \<le> n \<and> n < hi"
  with assms(3) have "el_mono (nodes s ! n) (nodes t ! n)"
    using assms(2) by (simp add: grows_def)
  then have "parent (nodes t ! n) = parent (nodes s ! n) \<or> parent (nodes t ! n) = None"
    by (simp add: el_mono_def)
  moreover have "body t = body s" "tops t = tops s"
    using assms(2) by (simp_all add: grows_def tops_grows)
  moreover have "case parent (nodes s ! n) of None \<Rightarrow> True
        | Some p \<Rightarrow> (lo \<le> p \<and> p < hi) \<or> (p = body s \<and> n \<in> set (tops s))"
    using assms(1) n unfolding owned_def by blast
  ultimately show "case parent (nodes t ! n) of None \<Rightarrow> True
        | Some p \<Rightarrow> (lo \<le> p \<and> p < hi) \<or> (p = body t \<and> n \<in> set (tops t))"
    by (cases "parent (nodes s ! n)"; cases "parent (nodes t ! n)") auto
qed

lemma sealed_grows:
  assumes "sealed lo hi s" and "grows s t" and "hi \<le> length (nodes s)"
  shows "sealed lo hi t"
  unfolding sealed_def
proof (intro allI impI)
  fix n
  assume n: "lo \<le> n \<and> n < hi"
  with assms(3) have "el_mono (nodes s ! n) (nodes t ! n)"
    using assms(2) by (simp add: grows_def)
  then have "parent (nodes t ! n) = parent (nodes s ! n) \<or> parent (nodes t ! n) = None"
    by (simp add: el_mono_def)
  moreover have "case parent (nodes s ! n) of None \<Rightarrow> True | Some p \<Rightarrow> lo \<le> p \<and> p < hi"
    using assms(1) n unfolding sealed_def by blast
  ultimately show "case parent (nodes t ! n) of None \<Rightarrow> True | Some p \<Rightarrow> lo \<le> p \<and> p < hi"
    by (cases "parent (nodes s ! n)"; cases "parent (nodes t ! n)") auto
qed

lemma nodes_fold_remove:
  "n < length (nodes s) \<Longrightarrow>
   nodes (fold remove_node ms s) ! n =
     (if n \<in> set ms then (nodes s ! n)\<lparr>parent := None\<rparr> else nodes s ! n)"
proof (induction ms arbitrary: s)
  case Nil
  show ?case by simp
next
  case (Cons m ms)
  then show ?case
    by (auto simp: remove_node_def nth_nodes_upd)
qed

lemma nodes_destroy:
  "n < length (nodes s) \<Longrightarrow>
   nodes (destroy s) ! n =
     (if n \<in> set (tops s) then (nodes s ! n)\<lparr>parent := None\<rparr> else nodes s ! n)"
  by (simp add: destroy_alt nodes_fold_remove)

lemma body_destroy [simp]: "body (destroy s) = body s"
  using destroy_calm [of s] by (simp add: calm_def grows_def)

lemma length_destroy [simp]: "length (nodes (destroy s)) = length (nodes s)"
proof -
  have "length (nodes (fold remove_node ms t)) = length (nodes t)" for ms t
    by (induction ms arbitrary: t) (simp_all add: remove_node_def)
  then show ?thesis by (simp add: destroy_alt)
qed

lemma destroy_seals:
  assumes "owned lo hi s" and "hi \<le> length (nodes s)"
  shows "sealed lo hi (destroy s)"
  unfolding sealed_def
proof (intro allI impI)
  fix n
  assume n: "lo \<le> n \<and> n < hi"
  then have "case parent (nodes s ! n) of None \<Rightarrow> True
        | Some p \<Rightarrow> (lo \<le> p \<and> p < hi) \<or> (p = body s \<and> n \<in> set (tops s))"
    using assms(1) unfolding owned_def by blast
  moreover have "nodes (destroy s) ! n =
     (if n \<in> set (tops s) then (nodes s ! n)\<lparr>parent := None\<rparr> else nodes s ! n)"
    using n assms(2) by (intro nodes_destroy) simp
  ultimately show "case parent (nodes (destroy s) ! n) of None \<Rightarrow> True
        | Some p \<Rightarrow> lo \<le> p \<and> p < hi"
    by (cases "parent (nodes s ! n)") auto
qed

lemma sealed_chain:
  assumes "sealed lo hi s" and "hi \<le> length (nodes s)"
  shows "lo \<le> n \<Longrightarrow> n < hi \<Longrightarrow> set (chain k (nodes s) n) \<subseteq> {lo..<hi}"
proof (induction k arbitrary: n)
  case 0
  show ?case by simp
next
  case (Suc k)
  show ?case
  proof (cases "parent (nodes s ! n)")
    case None
    with Suc.prems show ?thesis by auto
  next
    case (Some p)
    have "case parent (nodes s ! n) of None \<Rightarrow> True | Some p \<Rightarrow> lo \<le> p \<and> p < hi"
      using assms(1) Suc.prems unfolding sealed_def by blast
    with Some have "lo \<le> p" "p < hi" by simp_all
    then have "set (chain k (nodes s) p) \<subseteq> {lo..<hi}" by (rule Suc.IH)
    with Some Suc.prems show ?thesis by auto
  qed
qed

lemma sealed_detached:
  assumes "sealed lo hi s" and "hi \<le> length (nodes s)" and "body s < lo"
    and "lo \<le> n" and "n < hi"
  shows "\<not> isConnected s n"
  using sealed_chain [OF assms(1,2,4,5), of "length (nodes s)"] assms(3)
  by (auto simp: isConnected_def path_def)

subsection \<open>The frame loop and the observer stay off\<close>

lemma frame_idle: "raf_pending s = [] \<Longrightarrow> frame s = s"
  by (simp add: frame_def)

lemma io_destroy: "intersectionObserver (destroy s) = map_option (\<lambda>_. []) (intersectionObserver s)"
  using fold_remove_node_quiet [of "s\<lparr>raf_pending := cancelled s,
          intersectionObserver := map_option (\<lambda>_. []) (intersectionObserver s)\<rparr>" "tops s"]
  by (simp add: destroy_alt quiet_def io_same_def)

lemma io_off_destroy: "io_off (destroy s)"
  by (cases "intersectionObserver s") (simp_all add: io_off_def io_destroy)

lemma intersection_idle: "io_off s \<Longrightarrow> exec (Intersection es) s = s"
  by (auto simp: io_off_def intersection_callback_def)

lemma handleMouseMove_io: "io_same s (handleMouseMove now x y s)"
  by (simp add: handleMouseMove_def io_same_def)

lemma off_exec:
  assumes "timers_ok s" and "raf_pending s = []" and "io_off s"
  shows "raf_pending (exec ev s) = [] \<and> io_off (exec ev s)"
proof -
  consider "ev = Frame" | "ev = CallDestroy" | (move) now x y where "ev = MouseMove now x y"
    | (other) "ev \<noteq> Frame" "ev \<noteq> CallDestroy" "\<And>now x y. ev \<noteq> MouseMove now x y"
    by (cases ev) auto
  then show ?thesis
  proof cases
    case 1
    with assms show ?thesis by (simp add: frame_idle)
  next
    case 2
    with assms show ?thesis
      by (simp add: destroy_raf cancelled_def io_off_destroy split: option.splits)
  next
    case move
    have "io_same s (handleCardHover x y (handleMouseMove now x y s))"
      using handleMouseMove_io [of s now x y]
        handleCardHover_quiet [of "handleMouseMove now x y s" x y]
      by (simp add: io_same_def quiet_def)
    moreover have "raf_same s (exec ev s)"
      by (rule exec_raf [OF assms(1)]) (simp_all add: move)
    ultimately show ?thesis
      using assms by (auto simp: move io_same_def raf_same_def io_off_def)
  next
    case other
    with assms(1) have "quiet s (exec ev s)" by (intro exec_quiet) auto
    with assms show ?thesis by (auto simp: quiet_def io_same_def raf_same_def io_off_def)
  qed
qed

lemma off_run:
  "timers_ok s \<Longrightarrow> raf_pending s = [] \<Longrightarrow> io_off s \<Longrightarrow>
   raf_pending (run evs s) = [] \<and> io_off (run evs s)"
proof (induction evs arbitrary: s)
  case Nil
  then show ?case by (simp add: run_def)
next
  case (Cons ev evs)
  have "timers_ok (exec ev s)"
    using exec_grows [OF Cons.prems(1)] Cons.prems(1) by (rule grows_timers_ok)
  with off_exec [OF Cons.prems] show ?case
    by (simp add: run_Cons Cons.IH del: exec.simps)
qed

text \<open>
  C2, as amended. Take a component constructed on a document whose body is one of its
  nodes, in any state it can reach, and call \<open>destroy\<close>. From then on, whatever further
  events arrive: no node that the background, cursor and trail builders created is
  connected to the document; no frame callback is pending, so a frame does nothing; and
  the intersection observer observes nothing, so its callback does nothing.
\<close>

theorem destroy_detaches_and_cancels:
  fixes e evs evs' es n
  defines "s0 \<equiv> new_MotionEffects e"
  defines "t \<equiv> run evs' (destroy (run evs s0))"
  assumes "doc_body e < length (doc e)"
  shows "(length (doc e) \<le> n \<and> n < length (nodes s0) \<longrightarrow> \<not> isConnected t n)
         \<and> raf_pending t = [] \<and> exec Frame t = t \<and> exec (Intersection es) t = t"
proof -
  define s where "s = run evs s0"
  define lo where "lo = length (doc e)"
  define hi where "hi = length (nodes (start e))"
  have hi: "hi = length (nodes s0)" by (simp add: hi_def s0_def length_new)
  have r: "grows (start e) s" "timers_ok s" "raf_ok s" "body s = doc_body e"
    unfolding s_def s0_def by (rule reach)+
  have len: "hi \<le> length (nodes s)" using r(1) by (simp add: grows_def hi_def)
  have "owned lo hi s"
    using owned_start r(1) unfolding lo_def hi_def by (rule owned_grows) simp
  then have sd: "sealed lo hi (destroy s)" using len by (rule destroy_seals)
  have td: "timers_ok (destroy s)"
    using calm_grows [OF destroy_calm] r(2) by (rule grows_timers_ok)
  have g: "grows (destroy s) t"
    unfolding t_def s_def [symmetric] using td by (rule run_grows)
  have "sealed lo hi t" using sd g by (rule sealed_grows) (simp add: len)
  moreover have "hi \<le> length (nodes t)" using g len by (simp add: grows_def)
  moreover have "body t < lo" using g r(4) assms(3) by (simp add: grows_def lo_def)
  ultimately have 1: "lo \<le> n \<and> n < hi \<longrightarrow> \<not> isConnected t n"
    using sealed_detached [of lo hi t n] by blast
  have "raf_pending (destroy s) = []" using r(3) by (rule destroy_cancels)
  with td have off: "raf_pending t = []" "io_off t"
    unfolding t_def s_def [symmetric] using off_run [of "destroy s" evs'] io_off_destroy [of s]
    by simp_all
  from 1 off show ?thesis
    by (simp add: lo_def hi frame_idle intersection_idle del: exec.simps(12)) 
qed

section \<open>The example page\<close>

lemma chain_unfold:
  "0 < k \<Longrightarrow> chain k ns n =
     (if n < length ns
      then n # (case parent (ns ! n) of None \<Rightarrow> [] | Some p \<Rightarrow> chain (k - 1) ns p)
      else [])"
  by (cases k) (simp_all split: option.splits)

lemma page_fields [simp]:
  "length (doc page) = 5" "doc_body page = 0" "\<not> reduced_motion page" "raf0 page = 0"
  by (simp_all add: page_def)

lemma page_doc:
  "doc page =
     [host_el ''body'' [] None 0 0 1000 800,
      host_el ''div'' [''card'', ''animate-on-scroll''] (Some 0) 10 10 200 100,
      (host_el ''button'' [] (Some 1) 20 20 50 20)\<lparr>st_position := Some ''absolute''\<rparr>,
      host_el ''div'' [''kpi-card''] (Some 0) 500 400 200 100,
      host_el ''section'' [''dashboard-section'', ''main''] (Some 0) 0 600 1000 2000]"
  by (simp add: page_def)

lemma page_start_nodes:
  "n < 5 \<Longrightarrow> nodes (start page) ! n = doc page ! n"
  by (simp add: nth_start_host)

lemma connected_root: "body s < length (nodes s) \<Longrightarrow> isConnected s (body s)"
  by (cases "length (nodes s)") (simp_all add: isConnected_def path_def)

lemma connected_child:
  assumes "n < length (nodes s)" and "parent (nodes s ! n) = Some (body s)"
    and "body s < length (nodes s)" and "2 \<le> length (nodes s)"
  shows "isConnected s n"
proof -
  obtain k where k: "length (nodes s) = Suc (Suc k)"
    using assms(4) by (auto simp: numeral_2_eq_2 Suc_le_eq dest!: less_imp_Suc_add)
  show ?thesis
    using assms(1-3) by (simp add: isConnected_def path_def k)
qed

lemma connected_grandchild:
  assumes "n < length (nodes s)" and "parent (nodes s ! n) = Some p"
    and "p < length (nodes s)" and "parent (nodes s ! p) = Some (body s)"
    and "body s < length (nodes s)" and "3 \<le> length (nodes s)"
  shows "isConnected s n"
proof -
  obtain k where k: "length (nodes s) = Suc (Suc (Suc k))"
    using assms(6) by (auto simp: numeral_3_eq_3 Suc_le_eq dest!: less_imp_Suc_add)
  show ?thesis
    using assms(1-5) by (simp add: isConnected_def path_def k)
qed

lemma page_start_connected:
  "isConnected (start page) (Suc 0)" "isConnected (start page) 2" "isConnected (start page) 3"
proof -
  show "isConnected (start page) (Suc 0)" "isConnected (start page) 3"
    by (rule connected_child;
        simp add: length_start start_fields page_start_nodes page_doc host_el_def)+
  show "isConnected (start page) 2"
    by (rule connected_grandchild [where p = 1];
        simp add: length_start start_fields page_start_nodes page_doc host_el_def)
qed


lemma page_interactive:
  "\<not> sel_interactive (doc page ! 0)" "sel_interactive (doc page ! Suc 0)"
  "sel_interactive (doc page ! 2)" "sel_interactive (doc page ! 3)"
  "\<not> sel_interactive (doc page ! 4)"
  by (simp_all add: page_doc sel_interactive_def has_class_def host_el_def blank_def)

lemma page_wired:
  "wired (doc page ! 0) = 0" "wired (doc page ! Suc 0) = 0" "wired (doc page ! 2) = 0"
  "wired (doc page ! 3) = 0"
  by (simp_all add: page_doc host_el_def blank_def)

lemma length_page_new [simp]: "length (nodes (new_MotionEffects page)) = 68"
  by (simp add: length_new length_start)

lemma page_new_cos:
  "el_cos ((doc page ! 0)\<lparr>wired := 0\<rparr>) (nodes (new_MotionEffects page) ! 0)"
  "el_cos ((doc page ! 1)\<lparr>wired := 1\<rparr>) (nodes (new_MotionEffects page) ! 1)"
  "el_cos ((doc page ! 2)\<lparr>wired := 1\<rparr>) (nodes (new_MotionEffects page) ! 2)"
  "el_cos ((doc page ! 3)\<lparr>wired := 1\<rparr>) (nodes (new_MotionEffects page) ! 3)"
  using new_node [of 0 page] new_node [of 1 page] new_node [of 2 page] new_node [of 3 page]
  by (simp_all add: length_start page_start_nodes page_interactive page_start_connected
      page_wired)

lemma grows_class:
  assumes "grows s t" and "n < length (nodes s)" and "has_class c (nodes s ! n)"
    and "c \<notin> set removable"
  shows "has_class c (nodes t ! n)"
proof -
  have "el_mono (nodes s ! n) (nodes t ! n)" using assms(1,2) by (simp add: grows_def)
  with assms(3,4) show ?thesis unfolding el_mono_def by blast
qed

lemma page_new_classes:
  "has_class ''card'' (nodes (new_MotionEffects page) ! Suc 0)"
  "has_class ''kpi-card'' (nodes (new_MotionEffects page) ! 3)"
  by (rule grows_class [OF calm_grows [OF start_calm]];
      simp add: length_start page_start_nodes page_doc host_el_def has_class_def removable_def)+

lemma page_new:
  "parent (nodes (new_MotionEffects page) ! 0) = None"
  "wired (nodes (new_MotionEffects page) ! 0) = 0"
  "parent (nodes (new_MotionEffects page) ! 1) = Some 0"
  "wired (nodes (new_MotionEffects page) ! 1) = 1"
  "bbox (nodes (new_MotionEffects page) ! 1) = \<lparr>r_left = 10, r_top = 10, r_width = 200, r_height = 100\<rparr>"
  "st_x (nodes (new_MotionEffects page) ! 1) = None"
  "parent (nodes (new_MotionEffects page) ! 2) = Some 1"
  "wired (nodes (new_MotionEffects page) ! 2) = 1"
  "bbox (nodes (new_MotionEffects page) ! 2) = \<lparr>r_left = 20, r_top = 20, r_width = 50, r_height = 20\<rparr>"
  "st_position (nodes (new_MotionEffects page) ! 2) = Some ''absolute''"
  "parent (nodes (new_MotionEffects page) ! 3) = Some 0"
  "bbox (nodes (new_MotionEffects page) ! 3) = \<lparr>r_left = 500, r_top = 400, r_width = 200, r_height = 100\<rparr>"
  "st_x (nodes (new_MotionEffects page) ! 3) = None"
  using page_new_cos
  by (simp_all add: el_cos_def page_doc host_el_def blank_def)

lemma page_new_state:
  "body (new_MotionEffects page) = 0" "listening (new_MotionEffects page)"
  "\<not> prefersReducedMotion (new_MotionEffects page)" "timers_ok (new_MotionEffects page)"
  using reach [where e = page and evs = "[]"] by (simp_all add: run_def)

end
